theory Spec2Isabelle
  imports Main "HOL-Library.Char_ord" "HOL-Library.List_Lexorder"
begin

section \<open>The PCD sequence component\<close>

text \<open>
  The component \<open>PCDSequence\<close> (file \<open>PCDSequence.cpp\<close>) plays back the point clouds
  stored in the files of a directory. Its handler \<open>onLoadCloud\<close> is called once per tick;
  the other handlers only set request flags. The model below follows the source handler
  by handler. What the component does to the outside (writing to an output stream,
  calling the PCD loader) is recorded as a list of events returned beside the new state.
\<close>

subsection \<open>Data\<close>

text \<open>The three kinds of cloud the component can return (\<open>cloud.xyz\<close>, \<open>cloud.xyzrgb\<close>,
  \<open>cloud.xyzsift\<close>). In the source each kind has its own copy of the code and its own
  point type; here one type \<open>'p\<close> stands for the points and a cloud is a list of points,
  the freshly allocated cloud being the empty list.\<close>

datatype kind = XYZ | XYZRGB | XYZSIFT

text \<open>The outcomes of \<open>pcl::io::loadPCDFile\<close>: it fills the cloud and returns 0, it returns
  -1, or it throws.\<close>

datatype 'c load_result = Loaded 'c | Failed | Throws

text \<open>What a tick does to the outside: a write to \<open>out_end_of_sequence_trigger\<close>, a call of
  \<open>loadPCDFile\<close> for a kind on a path, a write of a cloud to the output stream of a kind.\<close>

datatype 'p event = EndOfSequence | Load kind string | Out kind "'p list"

text \<open>The properties registered by the constructor.\<close>

record props =
  prop_directory :: string
  prop_pattern :: string
  prop_sort :: bool
  prop_loop :: bool
  prop_auto_publish_cloud :: bool
  prop_auto_next_cloud :: bool
  prop_auto_prev_cloud :: bool
  prop_return_xyz :: bool
  prop_return_xyzrgb :: bool
  prop_return_xyzsift :: bool

text \<open>The member variables. \<open>index\<close> and \<open>previous_index\<close> are signed integers in the source
  (they are compared with \<open>-1\<close> and \<open>0\<close>); the model uses \<open>int\<close> and writes out the two
  places where the source mixes them with the unsigned \<open>files.size()\<close>. The number of
  files is taken to fit the signed type.\<close>

record 'p component =
  index :: int
  previous_index :: int
  next_cloud_flag :: bool
  prev_cloud_flag :: bool
  reload_sequence_flag :: bool
  publish_cloud_flag :: bool
  files :: "string list"
  cloud_xyz :: "'p list"
  cloud_xyzrgb :: "'p list"
  cloud_xyzsift :: "'p list"

text \<open>The two collaborators whose code is outside the component: \<open>Utils::searchFiles\<close>,
  called with the directory and the pattern and taken to return a list of paths, and
  \<open>pcl::io::loadPCDFile\<close>, one instance per kind. A tick is given the behaviour they
  have during that tick.\<close>

record 'p env =
  searchFiles :: "string \<Rightarrow> string \<Rightarrow> string list"
  loadPCDFile :: "kind \<Rightarrow> string \<Rightarrow> 'p list load_result"

subsection \<open>Initialisation and the request handlers\<close>

text \<open>\<open>onInit\<close> sets the indices, three of the four flags and the clouds; it touches neither
  \<open>publish_cloud_flag\<close> nor \<open>files\<close>.\<close>

definition onInit :: "'p component \<Rightarrow> 'p component" where
  "onInit s = s\<lparr>index := 0, previous_index := -1,
                next_cloud_flag := False, prev_cloud_flag := False,
                reload_sequence_flag := True,
                cloud_xyz := [], cloud_xyzrgb := [], cloud_xyzsift := []\<rparr>"

definition onPublishCloud :: "'p component \<Rightarrow> 'p component" where
  "onPublishCloud s = s\<lparr>publish_cloud_flag := True\<rparr>"

definition onLoadNextCloud :: "'p component \<Rightarrow> 'p component" where
  "onLoadNextCloud s = s\<lparr>next_cloud_flag := True\<rparr>"

definition onLoadPrevCloud :: "'p component \<Rightarrow> 'p component" where
  "onLoadPrevCloud s = s\<lparr>prev_cloud_flag := True\<rparr>"

definition onSequenceReload :: "'p component \<Rightarrow> 'p component" where
  "onSequenceReload s = s\<lparr>reload_sequence_flag := True\<rparr>"

subsection \<open>File discovery\<close>

text \<open>\<open>findFiles\<close> replaces \<open>files\<close> by the result of the search, sorted when \<open>mode.sort\<close>
  is on (\<open>std::sort\<close> on strings: the lexicographic order of the bytes), and tells
  whether any file was found.\<close>

definition findFiles :: "props \<Rightarrow> 'p env \<Rightarrow> 'p component \<Rightarrow> bool \<times> 'p component" where
  "findFiles pr env s =
     (let fs = searchFiles env (prop_directory pr) (prop_pattern pr);
          fs' = (if prop_sort pr then sort fs else fs)
      in (fs' \<noteq> [], s\<lparr>files := fs'\<rparr>))"

subsection \<open>The tick: choosing the index\<close>

text \<open>\<open>index >= files.size()\<close> compares a signed with an unsigned value: the index is
  converted to the unsigned type first, so a negative index counts as a huge one.\<close>

definition index_ge_size :: "int \<Rightarrow> nat \<Rightarrow> bool" where
  "index_ge_size i n \<longleftrightarrow> i < 0 \<or> int n \<le> i"

text \<open>\<open>index = files.size() - 1\<close>: the unsigned difference converted back to the signed
  type; for an empty vector the difference wraps and the index becomes \<open>-1\<close>.\<close>

definition size_minus_one :: "nat \<Rightarrow> int" where
  "size_minus_one n = int n - 1"

text \<open>The range check named "first cloud" in the source. The third component of the
  result tells whether the handler returns here.\<close>

definition check_first :: "props \<Rightarrow> 'p component \<Rightarrow> 'p event list \<times> 'p component \<times> bool" where
  "check_first pr s =
     (if index s < 0 then
        (if prop_loop pr
         then ([EndOfSequence], s\<lparr>index := size_minus_one (length (files s))\<rparr>, False)
         else ([EndOfSequence], s\<lparr>index := 0\<rparr>, True))
      else ([], s, False))"

text \<open>The range check named "last cloud".\<close>

definition check_last :: "props \<Rightarrow> 'p component \<Rightarrow> 'p event list \<times> 'p component \<times> bool" where
  "check_last pr s =
     (if index_ge_size (index s) (length (files s)) then
        (if prop_loop pr
         then ([EndOfSequence], s\<lparr>index := 0\<rparr>, False)
         else ([EndOfSequence], s\<lparr>index := size_minus_one (length (files s))\<rparr>, True))
      else ([], s, False))"

text \<open>The first part of \<open>onLoadCloud\<close>, up to the end of the \<open>if\<close> / \<open>else if\<close> / \<open>else\<close>
  that chooses the index: the reload branch, the start branch, and the branch that
  moves the index, resets the two flags and checks the range.\<close>

definition select_index ::
  "props \<Rightarrow> 'p env \<Rightarrow> 'p component \<Rightarrow> 'p event list \<times> 'p component \<times> bool" where
  "select_index pr env s =
     (if reload_sequence_flag s then
        ([], (snd (findFiles pr env s))\<lparr>index := 0, reload_sequence_flag := False\<rparr>, False)
      else if previous_index s = -1 then
        ([], s\<lparr>index := 0\<rparr>, False)
      else
        (let s1 = (if prop_auto_next_cloud pr \<or> next_cloud_flag s
                   then s\<lparr>index := index s + 1\<rparr> else s);
             s2 = (if prop_auto_prev_cloud pr \<or> prev_cloud_flag s1
                   then s1\<lparr>index := index s1 - 1\<rparr> else s1);
             s3 = s2\<lparr>next_cloud_flag := False, prev_cloud_flag := False\<rparr>;
             (e1, s4, r1) = check_first pr s3
         in if r1 then (e1, s4, True)
            else (let (e2, s5, r2) = check_last pr s4 in (e1 @ e2, s5, r2))))"

subsection \<open>The tick: returning the cloud\<close>

definition requested :: "props \<Rightarrow> kind \<Rightarrow> bool" where
  "requested pr k = (case k of XYZ \<Rightarrow> prop_return_xyz pr
                             | XYZRGB \<Rightarrow> prop_return_xyzrgb pr
                             | XYZSIFT \<Rightarrow> prop_return_xyzsift pr)"

definition get_cloud :: "kind \<Rightarrow> 'p component \<Rightarrow> 'p list" where
  "get_cloud k s = (case k of XYZ \<Rightarrow> cloud_xyz s
                            | XYZRGB \<Rightarrow> cloud_xyzrgb s
                            | XYZSIFT \<Rightarrow> cloud_xyzsift s)"

definition set_cloud :: "kind \<Rightarrow> 'p list \<Rightarrow> 'p component \<Rightarrow> 'p component" where
  "set_cloud k c s = (case k of XYZ \<Rightarrow> s\<lparr>cloud_xyz := c\<rparr>
                              | XYZRGB \<Rightarrow> s\<lparr>cloud_xyzrgb := c\<rparr>
                              | XYZSIFT \<Rightarrow> s\<lparr>cloud_xyzsift := c\<rparr>)"

text \<open>One of the three blocks \<open>if (prop_return_...) { ... }\<close> of the \<open>try\<close> statement, for
  the kind \<open>k\<close>: the loader is called on \<open>files[index]\<close>; when it returns -1 nothing
  changes; otherwise \<open>previous_index\<close> and the cloud of the kind are overwritten and the
  cloud is written out. The third component tells whether the loader threw.\<close>

definition read_cloud ::
  "props \<Rightarrow> 'p env \<Rightarrow> kind \<Rightarrow> 'p component \<Rightarrow> 'p event list \<times> 'p component \<times> bool" where
  "read_cloud pr env k s =
     (if requested pr k then
        (let f = files s ! nat (index s) in
         case loadPCDFile env k f of
           Throws \<Rightarrow> ([Load k f], s, True)
         | Failed \<Rightarrow> ([Load k f], s, False)
         | Loaded c \<Rightarrow>
             ([Load k f, Out k c], set_cloud k c (s\<lparr>previous_index := index s\<rparr>), False))
      else ([], s, False))"

text \<open>The stored clouds written out when the index has not changed.\<close>

definition return_previous :: "props \<Rightarrow> 'p component \<Rightarrow> 'p event list" where
  "return_previous pr s =
     (if prop_return_xyz pr then [Out XYZ (cloud_xyz s)] else []) @
     (if prop_return_xyzrgb pr then [Out XYZRGB (cloud_xyzrgb s)] else []) @
     (if prop_return_xyzsift pr then [Out XYZSIFT (cloud_xyzsift s)] else [])"

text \<open>The \<open>try\<close> statement with its \<open>catch (...)\<close>, which only logs: an exception ends the
  statement at the block that threw, and the handler returns normally.\<close>

definition try_block :: "props \<Rightarrow> 'p env \<Rightarrow> 'p component \<Rightarrow> 'p event list \<times> 'p component" where
  "try_block pr env s =
     (if index s = previous_index s then (return_previous pr s, s)
      else
        (let (e1, s1, t1) = read_cloud pr env XYZ s in
         if t1 then (e1, s1)
         else
           (let (e2, s2, t2) = read_cloud pr env XYZRGB s1 in
            if t2 then (e1 @ e2, s2)
            else
              (let (e3, s3, t3) = read_cloud pr env XYZSIFT s2 in (e1 @ e2 @ e3, s3)))))"

subsection \<open>The tick\<close>

definition onLoadCloud :: "props \<Rightarrow> 'p env \<Rightarrow> 'p component \<Rightarrow> 'p event list \<times> 'p component" where
  "onLoadCloud pr env s =
     (let (e1, s1, r) = select_index pr env s in
      if r then (e1, s1)
      else if files s1 = [] then (e1, s1)
      else if \<not> prop_auto_publish_cloud pr \<and> \<not> publish_cloud_flag s1 then (e1, s1)
      else (let (e2, s2) = try_block pr env (s1\<lparr>publish_cloud_flag := False\<rparr>)
            in (e1 @ e2, s2)))"

text \<open>A sequence of ticks, one environment per tick, with no other handler called in
  between: \<open>ticks\<close> is the state after the last tick, \<open>run\<close> lists for each tick the
  events of the tick and the state it leaves.\<close>

fun ticks :: "props \<Rightarrow> 'p env list \<Rightarrow> 'p component \<Rightarrow> 'p component" where
  "ticks pr [] s = s"
| "ticks pr (env # envs) s = ticks pr envs (snd (onLoadCloud pr env s))"

fun run ::
  "props \<Rightarrow> 'p env list \<Rightarrow> 'p component \<Rightarrow> ('p event list \<times> 'p component) list" where
  "run pr [] s = []"
| "run pr (env # envs) s =
     (let (e, s') = onLoadCloud pr env s in (e, s') # run pr envs s')"

subsection \<open>Auxiliary notions\<close>

text \<open>The members that the \<open>try\<close> statement never writes.\<close>

definition control ::
  "'p component \<Rightarrow> int \<times> string list \<times> bool \<times> bool \<times> bool \<times> bool" where
  "control s = (index s, files s, next_cloud_flag s, prev_cloud_flag s,
                reload_sequence_flag s, publish_cloud_flag s)"

text \<open>The events of a tick that loads the file \<open>f\<close> when every decode succeeds, \<open>dec k\<close>
  being the cloud decoded for kind \<open>k\<close>: for each requested kind, in the order of the
  source, the call of the loader and the write of the cloud.\<close>

definition loads :: "props \<Rightarrow> (kind \<Rightarrow> 'p list) \<Rightarrow> string \<Rightarrow> 'p event list" where
  "loads pr dec f =
     concat (map (\<lambda>k. [Load k f, Out k (dec k)]) (filter (requested pr) [XYZ, XYZRGB, XYZSIFT]))"

text \<open>Events that concern a cloud: a call of the loader or a write of a cloud.\<close>

fun is_cloud_event :: "'p event \<Rightarrow> bool" where
  "is_cloud_event EndOfSequence = False"
| "is_cloud_event (Load k f) = True"
| "is_cloud_event (Out k c) = True"


text \<open>How the \<open>try\<close> statement, started in \<open>s\<close>, can have left the stored cloud of
  kind \<open>k\<close> and \<open>previous_index\<close> in \<open>s'\<close>: both untouched; the cloud untouched while a
  decode of another kind set \<open>previous_index\<close>; or the cloud decoded from \<open>files[index]\<close>.\<close>

definition slot_ok :: "props \<Rightarrow> 'p env \<Rightarrow> kind \<Rightarrow> 'p component \<Rightarrow> 'p component \<Rightarrow> bool" where
  "slot_ok pr env k s s' \<longleftrightarrow>
     get_cloud k s' = get_cloud k s \<and> previous_index s' = previous_index s \<or>
     get_cloud k s' = get_cloud k s \<and> previous_index s' = index s \<and>
       (\<exists>j. requested pr j \<and> loadPCDFile env j (files s ! nat (index s)) = Loaded (get_cloud j s')) \<or>
     requested pr k \<and> previous_index s' = index s \<and>
       loadPCDFile env k (files s ! nat (index s)) = Loaded (get_cloud k s')"

text \<open>A component that has served a cloud before, with no reload and no retreat request
  pending, and with its index inside a non-empty sequence.\<close>

definition steady :: "'p component \<Rightarrow> bool" where
  "steady s \<longleftrightarrow>
     \<not> reload_sequence_flag s \<and> previous_index s \<noteq> - 1 \<and> \<not> prev_cloud_flag s \<and>
     files s \<noteq> [] \<and> 0 \<le> index s \<and> index s < int (length (files s))"

text \<open>The place of a kind's block in the \<open>try\<close> statement, and the kind an event is about.\<close>

fun position :: "kind \<Rightarrow> nat" where
  "position XYZ = 0"
| "position XYZRGB = 1"
| "position XYZSIFT = 2"

fun event_kind :: "'p event \<Rightarrow> kind option" where
  "event_kind EndOfSequence = None"
| "event_kind (Load k f) = Some k"
| "event_kind (Out k c) = Some k"




subsection \<open>Concrete configurations\<close>

text \<open>The property values set by the constructor, and a component as the constructor
  leaves it, with the members that neither the constructor nor \<open>onInit\<close> sets given
  some value.\<close>

definition default_props :: props where
  "default_props =
     \<lparr>prop_directory = ''.'', prop_pattern = ''.*'' @ [CHR 0x5C] @ ''.(pcd)'',
      prop_sort = True, prop_loop = False, prop_auto_publish_cloud = True,
      prop_auto_next_cloud = True, prop_auto_prev_cloud = False,
      prop_return_xyz = False, prop_return_xyzrgb = False, prop_return_xyzsift = False\<rparr>"

definition constructed :: "'p component" where
  "constructed =
     \<lparr>index = 0, previous_index = 0, next_cloud_flag = False, prev_cloud_flag = False,
      reload_sequence_flag = False, publish_cloud_flag = False, files = [],
      cloud_xyz = [], cloud_xyzrgb = [], cloud_xyzsift = []\<rparr>"

text \<open>A directory with three files that all decode, each to a cloud of one point that
  names its kind and its file.\<close>

definition decoded :: "kind \<Rightarrow> string \<Rightarrow> (kind \<times> string) list" where
  "decoded k f = [(k, f)]"

definition three_files :: "(kind \<times> string) env" where
  "three_files =
     \<lparr>searchFiles = (\<lambda>d p. [''f0'', ''f1'', ''f2'']),
      loadPCDFile = (\<lambda>k f. Loaded (decoded k f))\<rparr>"

definition xyz_props :: props where
  "xyz_props = default_props\<lparr>prop_return_xyz := True\<rparr>"

definition loop_props :: props where
  "loop_props = xyz_props\<lparr>prop_loop := True\<rparr>"

definition two_kinds :: props where
  "two_kinds = xyz_props\<lparr>prop_return_xyzrgb := True\<rparr>"


text \<open>A component between two ticks with no request pending, at index \<open>i\<close>, whose last
  successful decode was the xyz cloud \<open>c\<close> at index \<open>p\<close>.\<close>

definition playing :: "int \<Rightarrow> int \<Rightarrow> string list \<Rightarrow> 'p list \<Rightarrow> 'p component" where
  "playing i p fs c =
     \<lparr>index = i, previous_index = p, next_cloud_flag = False, prev_cloud_flag = False,
      reload_sequence_flag = False, publish_cloud_flag = False, files = fs,
      cloud_xyz = c, cloud_xyzrgb = [], cloud_xyzsift = []\<rparr>"

text \<open>A directory in which the search finds nothing.\<close>

definition empty_dir :: "(kind \<times> string) env" where
  "empty_dir = \<lparr>searchFiles = (\<lambda>d p. []), loadPCDFile = (\<lambda>k f. Loaded (decoded k f))\<rparr>"

text \<open>The component after it has served the first of three files and has then been told
  to reload from a directory that has become empty.\<close>

definition served_then_empty :: "(kind \<times> string) component" where
  "served_then_empty =
     snd (onLoadCloud xyz_props empty_dir
       (onSequenceReload (snd (onLoadCloud xyz_props three_files (onInit constructed)))))"


text \<open>The same three files, where the loader of xyz clouds throws.\<close>

definition xyz_throws :: "(kind \<times> string) env" where
  "xyz_throws =
     \<lparr>searchFiles = (\<lambda>d p. [''f0'', ''f1'', ''f2'']),
      loadPCDFile = (\<lambda>k f. if k = XYZ then Throws else Loaded (decoded k f))\<rparr>"

text \<open>The same three files, where the loader of xyzrgb clouds throws; and the properties
  with all three kinds requested.\<close>

definition rgb_throws :: "(kind \<times> string) env" where
  "rgb_throws =
     \<lparr>searchFiles = (\<lambda>d p. [''f0'', ''f1'', ''f2'']),
      loadPCDFile = (\<lambda>k f. if k = XYZRGB then Throws else Loaded (decoded k f))\<rparr>"

definition all_kinds :: props where
  "all_kinds = two_kinds\<lparr>prop_return_xyzsift := True\<rparr>"






section \<open>Properties\<close>

subsection \<open>What the parts of a tick leave unchanged\<close>

lemma control_set_cloud: "control (set_cloud k c s) = control s"
  by (cases k; simp add: set_cloud_def control_def)

lemma get_set_cloud:
  "get_cloud k' (set_cloud k c s) = (if k' = k then c else get_cloud k' s)"
  by (cases k; cases k'; simp add: set_cloud_def get_cloud_def)

lemma previous_index_set_cloud: "previous_index (set_cloud k c s) = previous_index s"
  by (cases k; simp add: set_cloud_def)

lemma read_cloud_control: "control (fst (snd (read_cloud pr env k s))) = control s"
proof (cases "requested pr k")
  case False
  then show ?thesis by (simp add: read_cloud_def)
next
  case True
  then show ?thesis
    by (cases "loadPCDFile env k (files s ! nat (index s))")
       (simp_all add: read_cloud_def control_set_cloud, simp_all add: control_def)
qed

lemma try_block_control: "control (snd (try_block pr env s)) = control s"
  by (simp add: try_block_def Let_def split_beta read_cloud_control)

lemma try_block_index: "index (snd (try_block pr env s)) = index s"
  and try_block_files: "files (snd (try_block pr env s)) = files s"
  and try_block_next: "next_cloud_flag (snd (try_block pr env s)) = next_cloud_flag s"
  and try_block_prev: "prev_cloud_flag (snd (try_block pr env s)) = prev_cloud_flag s"
  and try_block_reload: "reload_sequence_flag (snd (try_block pr env s)) = reload_sequence_flag s"
  and try_block_publish: "publish_cloud_flag (snd (try_block pr env s)) = publish_cloud_flag s"
  using try_block_control [of pr env s] by (simp_all add: control_def)

lemma get_cloud_previous_index: "get_cloud k (s\<lparr>previous_index := i\<rparr>) = get_cloud k s"
  and get_cloud_publish: "get_cloud k (s\<lparr>publish_cloud_flag := b\<rparr>) = get_cloud k s"
  by (cases k; simp add: get_cloud_def)+

lemma read_cloud_cases:
  obtains (skip) "\<not> requested pr k" and "read_cloud pr env k s = ([], s, False)"
  | (throws) "requested pr k" and "loadPCDFile env k (files s ! nat (index s)) = Throws"
      and "read_cloud pr env k s = ([Load k (files s ! nat (index s))], s, True)"
  | (failed) "requested pr k" and "loadPCDFile env k (files s ! nat (index s)) = Failed"
      and "read_cloud pr env k s = ([Load k (files s ! nat (index s))], s, False)"
  | (loaded) c where "requested pr k"
      and "loadPCDFile env k (files s ! nat (index s)) = Loaded c"
      and "read_cloud pr env k s =
             ([Load k (files s ! nat (index s)), Out k c],
              set_cloud k c (s\<lparr>previous_index := index s\<rparr>), False)"
  by (cases "requested pr k"; cases "loadPCDFile env k (files s ! nat (index s))")
     (simp_all add: read_cloud_def)

lemma try_block_steps:
  assumes "index s \<noteq> previous_index s"
  obtains e1 s1 t1 e2 s2 t2 e3 s3 t3 where
    "read_cloud pr env XYZ s = (e1, s1, t1)"
    "read_cloud pr env XYZRGB s1 = (e2, s2, t2)"
    "read_cloud pr env XYZSIFT s2 = (e3, s3, t3)"
    "try_block pr env s =
       (if t1 then (e1, s1) else if t2 then (e1 @ e2, s2) else (e1 @ e2 @ e3, s3))"
proof -
  obtain e1 s1 t1 where r1: "read_cloud pr env XYZ s = (e1, s1, t1)"
    by (cases "read_cloud pr env XYZ s") auto
  obtain e2 s2 t2 where r2: "read_cloud pr env XYZRGB s1 = (e2, s2, t2)"
    by (cases "read_cloud pr env XYZRGB s1") auto
  obtain e3 s3 t3 where r3: "read_cloud pr env XYZSIFT s2 = (e3, s3, t3)"
    by (cases "read_cloud pr env XYZSIFT s2") auto
  have "try_block pr env s =
       (if t1 then (e1, s1) else if t2 then (e1 @ e2, s2) else (e1 @ e2 @ e3, s3))"
    using assms by (simp add: try_block_def r1 r2 r3)
  with r1 r2 r3 show ?thesis by (rule that)
qed

lemma read_cloud_slot_ok:
  assumes "read_cloud pr env j s1 = (e, s2, t)" and "control s1 = control s"
    and "\<And>k. slot_ok pr env k s s1"
  shows "slot_ok pr env k s s2"
proof (cases rule: read_cloud_cases [of pr j env s1])
  case (loaded c)
  from assms(2) have same: "index s1 = index s" "files s1 = files s"
    by (simp_all add: control_def)
  from loaded assms(1) have s2: "s2 = set_cloud j c (s1\<lparr>previous_index := index s1\<rparr>)"
    by simp
  show ?thesis
  proof (cases "k = j")
    case True
    with loaded same show ?thesis
      by (simp add: slot_ok_def s2 get_set_cloud previous_index_set_cloud)
  next
    case False
    have "requested pr j \<and> loadPCDFile env j (files s ! nat (index s)) = Loaded (get_cloud j s2)"
      using loaded same by (simp add: s2 get_set_cloud)
    then show ?thesis
      using assms(3) [of k] False same
      by (auto simp: slot_ok_def s2 get_set_cloud previous_index_set_cloud get_cloud_previous_index)
  qed
qed (use assms in auto)


lemma slot_ok_refl: "slot_ok pr env k s s"
  by (simp add: slot_ok_def)

lemma try_block_slot_ok: "slot_ok pr env k s (snd (try_block pr env s))"
proof (cases "index s = previous_index s")
  case True
  then show ?thesis by (simp add: try_block_def slot_ok_refl)
next
  case False
  then obtain e1 s1 t1 e2 s2 t2 e3 s3 t3 where
    r1: "read_cloud pr env XYZ s = (e1, s1, t1)" and
    r2: "read_cloud pr env XYZRGB s1 = (e2, s2, t2)" and
    r3: "read_cloud pr env XYZSIFT s2 = (e3, s3, t3)" and
    tb: "try_block pr env s =
       (if t1 then (e1, s1) else if t2 then (e1 @ e2, s2) else (e1 @ e2 @ e3, s3))"
    by (rule try_block_steps)
  have c1: "control s1 = control s"
    using read_cloud_control [of pr env XYZ s] by (simp add: r1)
  have c2: "control s2 = control s"
    using read_cloud_control [of pr env XYZRGB s1] by (simp add: r2 c1)
  have k1: "slot_ok pr env k s s1" for k
    by (rule read_cloud_slot_ok [OF r1 refl slot_ok_refl])
  have k2: "slot_ok pr env k s s2" for k
    by (rule read_cloud_slot_ok [OF r2 c1 k1])
  have k3: "slot_ok pr env k s s3" for k
    by (rule read_cloud_slot_ok [OF r3 c2 k2])
  show ?thesis using k1 k2 k3 by (simp add: tb)
qed

lemma read_cloud_success:
  assumes "files s ! nat (index s) = f" and "requested pr k \<longrightarrow> loadPCDFile env k f = Loaded c"
  shows "read_cloud pr env k s =
           (if requested pr k
            then ([Load k f, Out k c], set_cloud k c (s\<lparr>previous_index := index s\<rparr>), False)
            else ([], s, False))"
  using assms by (simp add: read_cloud_def)

lemma loads_unfold:
  "loads pr dec f =
     (if requested pr XYZ then [Load XYZ f, Out XYZ (dec XYZ)] else []) @
     (if requested pr XYZRGB then [Load XYZRGB f, Out XYZRGB (dec XYZRGB)] else []) @
     (if requested pr XYZSIFT then [Load XYZSIFT f, Out XYZSIFT (dec XYZSIFT)] else [])"
  by (simp add: loads_def)

lemma try_block_loaded:
  assumes ne: "index s \<noteq> previous_index s"
    and ok: "\<forall>k. requested pr k \<longrightarrow> loadPCDFile env k (files s ! nat (index s)) = Loaded (dec k)"
  shows "fst (try_block pr env s) = loads pr dec (files s ! nat (index s))"
    and "(\<exists>k. requested pr k) \<Longrightarrow> previous_index (snd (try_block pr env s)) = index s"
proof -
  define f where "f = files s ! nat (index s)"
  from ne obtain e1 s1 t1 e2 s2 t2 e3 s3 t3 where
    r1: "read_cloud pr env XYZ s = (e1, s1, t1)" and
    r2: "read_cloud pr env XYZRGB s1 = (e2, s2, t2)" and
    r3: "read_cloud pr env XYZSIFT s2 = (e3, s3, t3)" and
    tb: "try_block pr env s =
       (if t1 then (e1, s1) else if t2 then (e1 @ e2, s2) else (e1 @ e2 @ e3, s3))"
    by (rule try_block_steps)
  have c1: "control s1 = control s"
    using read_cloud_control [of pr env XYZ s] by (simp add: r1)
  have c2: "control s2 = control s"
    using read_cloud_control [of pr env XYZRGB s1] by (simp add: r2 c1)
  have f1: "files s1 ! nat (index s1) = f" and f2: "files s2 ! nat (index s2) = f"
    using c1 c2 by (simp_all add: control_def f_def)
  have i1: "index s1 = index s" and i2: "index s2 = index s"
    using c1 c2 by (simp_all add: control_def)
  have ok': "requested pr k \<longrightarrow> loadPCDFile env k f = Loaded (dec k)" for k
    using ok by (simp add: f_def)
  note q1 = r1 [unfolded read_cloud_success [OF f_def [symmetric] ok']]
  note q2 = r2 [unfolded read_cloud_success [OF f1 ok']]
  note q3 = r3 [unfolded read_cloud_success [OF f2 ok']]
  have e: "e1 = (if requested pr XYZ then [Load XYZ f, Out XYZ (dec XYZ)] else [])"
    "e2 = (if requested pr XYZRGB then [Load XYZRGB f, Out XYZRGB (dec XYZRGB)] else [])"
    "e3 = (if requested pr XYZSIFT then [Load XYZSIFT f, Out XYZSIFT (dec XYZSIFT)] else [])"
    and t: "\<not> t1" "\<not> t2" "\<not> t3"
    using q1 q2 q3 by (auto split: if_splits)
  show "fst (try_block pr env s) = loads pr dec (files s ! nat (index s))"
    by (simp add: tb t loads_unfold e f_def [symmetric])
  have p1: "previous_index s1 = (if requested pr XYZ then index s else previous_index s)"
    using q1 by (auto simp: previous_index_set_cloud split: if_splits)
  have p2: "previous_index s2 = (if requested pr XYZRGB then index s else previous_index s1)"
    using q2 i1 by (auto simp: previous_index_set_cloud split: if_splits)
  have p3: "previous_index s3 = (if requested pr XYZSIFT then index s else previous_index s2)"
    using q3 i2 by (auto simp: previous_index_set_cloud split: if_splits)
  show "previous_index (snd (try_block pr env s)) = index s" if "\<exists>k. requested pr k"
  proof -
    from that obtain k where "requested pr k" ..
    then show ?thesis
      by (cases k) (simp_all add: tb t p1 p2 p3)
  qed
qed

lemma try_block_no_signal: "EndOfSequence \<notin> set (fst (try_block pr env s))"
proof (cases "index s = previous_index s")
  case True
  then show ?thesis by (simp add: try_block_def return_previous_def)
next
  case False
  then obtain e1 s1 t1 e2 s2 t2 e3 s3 t3 where
    r1: "read_cloud pr env XYZ s = (e1, s1, t1)" and
    r2: "read_cloud pr env XYZRGB s1 = (e2, s2, t2)" and
    r3: "read_cloud pr env XYZSIFT s2 = (e3, s3, t3)" and
    tb: "try_block pr env s =
       (if t1 then (e1, s1) else if t2 then (e1 @ e2, s2) else (e1 @ e2 @ e3, s3))"
    by (rule try_block_steps)
  have "EndOfSequence \<notin> set e" if "read_cloud pr env k s0 = (e, s0', t)" for k s0 e s0' t
    using that by (cases rule: read_cloud_cases [of pr k env s0]) auto
  from this [OF r1] this [OF r2] this [OF r3] show ?thesis
    by (simp add: tb)
qed

lemma select_index_events: "set (fst (select_index pr env s)) \<subseteq> {EndOfSequence}"
  by (auto simp: select_index_def check_first_def check_last_def Let_def split_beta
      split: if_splits)

text \<open>A tick is its first part alone when the handler returns before the \<open>try\<close>
  statement, and its first part followed by the \<open>try\<close> statement otherwise.\<close>

lemma onLoadCloud_returns:
  assumes "select_index pr env s = (e1, s1, r)"
    and "r \<or> files s1 = [] \<or> (\<not> prop_auto_publish_cloud pr \<and> \<not> publish_cloud_flag s1)"
  shows "onLoadCloud pr env s = (e1, s1)"
  using assms by (auto simp: onLoadCloud_def)

lemma onLoadCloud_tries:
  assumes "select_index pr env s = (e1, s1, False)" and "files s1 \<noteq> []"
    and "prop_auto_publish_cloud pr \<or> publish_cloud_flag s1"
  shows "onLoadCloud pr env s =
           (e1 @ fst (try_block pr env (s1\<lparr>publish_cloud_flag := False\<rparr>)),
            snd (try_block pr env (s1\<lparr>publish_cloud_flag := False\<rparr>)))"
  using assms by (auto simp: onLoadCloud_def split_beta)

lemma select_index_range:
  assumes "select_index pr env s = (e, s', r)" and "files s' \<noteq> []"
  shows "0 \<le> index s' \<and> index s' < int (length (files s'))"
  using assms
  by (auto simp: select_index_def check_first_def check_last_def index_ge_size_def
      size_minus_one_def findFiles_def Let_def split: if_splits prod.splits)

lemma onLoadCloud_index:
  "index (snd (onLoadCloud pr env s)) = index (fst (snd (select_index pr env s)))"
proof -
  obtain e1 s1 r where sel: "select_index pr env s = (e1, s1, r)"
    by (cases "select_index pr env s") auto
  show ?thesis
  proof (cases "r \<or> files s1 = [] \<or> (\<not> prop_auto_publish_cloud pr \<and> \<not> publish_cloud_flag s1)")
    case True
    then show ?thesis by (simp add: onLoadCloud_returns [OF sel] sel)
  next
    case False
    then show ?thesis
      using onLoadCloud_tries [of pr env s e1 s1] sel by (auto simp: try_block_index)
  qed
qed

subsection \<open>Ticks of the concrete configurations\<close>

lemmas tick_defs = onLoadCloud_def select_index_def check_first_def check_last_def
  index_ge_size_def size_minus_one_def findFiles_def try_block_def read_cloud_def
  return_previous_def requested_def set_cloud_def get_cloud_def Let_def

lemmas demo_defs = xyz_props_def default_props_def three_files_def empty_dir_def
  constructed_def onInit_def onSequenceReload_def onPublishCloud_def onLoadNextCloud_def
  onLoadPrevCloud_def decoded_def playing_def

lemma three_files_first_tick:
  "onLoadCloud xyz_props three_files (onInit constructed) =
     ([Load XYZ ''f0'', Out XYZ (decoded XYZ ''f0'')],
      playing 0 0 [''f0'', ''f1'', ''f2''] (decoded XYZ ''f0''))"
  by (simp add: tick_defs demo_defs)

lemma empty_dir_first_tick:
  "onLoadCloud xyz_props empty_dir (onInit constructed) = ([], (onInit constructed)\<lparr>reload_sequence_flag := False\<rparr>)"
  by (simp add: tick_defs demo_defs)

lemma served_then_empty_eq:
  "served_then_empty = playing 0 0 [] (decoded XYZ ''f0'')"
  by (simp add: served_then_empty_def three_files_first_tick)
     (simp add: tick_defs demo_defs)

lemma served_then_empty_tick:
  "onLoadCloud xyz_props empty_dir served_then_empty =
     ([EndOfSequence], playing (-1) 0 [] (decoded XYZ ''f0''))"
  by (simp add: served_then_empty_eq) (simp add: tick_defs demo_defs)

subsection \<open>Requests are idempotent\<close>

lemma repeated_request:
  assumes "\<And>s. f (f s) = f s"
  shows "(f ^^ Suc n) s = f s"
  by (induction n) (simp_all add: assms)

text \<open>C9. Requesting advance, retreat, reload or publish twice, or any number of times
  more than once, before a tick leaves the component in the same state as requesting it
  once, so the next tick does the same in both cases.\<close>

theorem request_idempotent:
  "onLoadNextCloud (onLoadNextCloud s) = onLoadNextCloud s \<and>
   onLoadPrevCloud (onLoadPrevCloud s) = onLoadPrevCloud s \<and>
   onSequenceReload (onSequenceReload s) = onSequenceReload s \<and>
   onPublishCloud (onPublishCloud s) = onPublishCloud s \<and>
   (onLoadNextCloud ^^ Suc n) s = onLoadNextCloud s \<and>
   (onLoadPrevCloud ^^ Suc n) s = onLoadPrevCloud s \<and>
   (onSequenceReload ^^ Suc n) s = onSequenceReload s \<and>
   (onPublishCloud ^^ Suc n) s = onPublishCloud s \<and>
   onLoadCloud pr env ((onLoadNextCloud ^^ Suc n) s) = onLoadCloud pr env (onLoadNextCloud s) \<and>
   onLoadCloud pr env ((onLoadPrevCloud ^^ Suc n) s) = onLoadCloud pr env (onLoadPrevCloud s) \<and>
   onLoadCloud pr env ((onSequenceReload ^^ Suc n) s) = onLoadCloud pr env (onSequenceReload s) \<and>
   onLoadCloud pr env ((onPublishCloud ^^ Suc n) s) = onLoadCloud pr env (onPublishCloud s)"
proof -
  have twice: "onLoadNextCloud (onLoadNextCloud s) = onLoadNextCloud s"
    "onLoadPrevCloud (onLoadPrevCloud s) = onLoadPrevCloud s"
    "onSequenceReload (onSequenceReload s) = onSequenceReload s"
    "onPublishCloud (onPublishCloud s) = onPublishCloud s" for s :: "'a component"
    by (simp_all add: onLoadNextCloud_def onLoadPrevCloud_def onSequenceReload_def
        onPublishCloud_def)
  have many: "(onLoadNextCloud ^^ Suc n) s = onLoadNextCloud s"
    "(onLoadPrevCloud ^^ Suc n) s = onLoadPrevCloud s"
    "(onSequenceReload ^^ Suc n) s = onSequenceReload s"
    "(onPublishCloud ^^ Suc n) s = onPublishCloud s"
    by (rule repeated_request, rule twice)+
  show ?thesis
    by (simp only: twice many simp_thms)
qed

subsection \<open>The index stays within the sequence\<close>

text \<open>C4 (as amended). After any tick that leaves a non-empty sequence, the index is within
  the sequence: \<open>0 \<le> index < length files\<close>. A tick that leaves an empty sequence calls no
  loader and writes no cloud; when it took the reload branch or the start branch
  (\<open>previous_index = -1\<close>) it sets the index to 0 and fires no signal.\<close>

theorem index_in_range:
  "(files (snd (onLoadCloud pr env s)) \<noteq> [] \<longrightarrow>
      0 \<le> index (snd (onLoadCloud pr env s)) \<and>
      index (snd (onLoadCloud pr env s)) < int (length (files (snd (onLoadCloud pr env s))))) \<and>
   (files (snd (onLoadCloud pr env s)) = [] \<longrightarrow>
      filter is_cloud_event (fst (onLoadCloud pr env s)) = [] \<and>
      (reload_sequence_flag s \<or> previous_index s = -1 \<longrightarrow>
         index (snd (onLoadCloud pr env s)) = 0 \<and> fst (onLoadCloud pr env s) = []))"
proof -
  obtain e1 s1 r where sel: "select_index pr env s = (e1, s1, r)"
    by (cases "select_index pr env s") auto
  have ev: "filter is_cloud_event e1 = []"
    using select_index_events [of pr env s] by (auto simp: sel filter_empty_conv)
  have start: "reload_sequence_flag s \<or> previous_index s = -1 \<Longrightarrow> index s1 = 0 \<and> e1 = [] \<and> \<not> r"
    using sel by (auto simp: select_index_def split: if_splits)
  show ?thesis
  proof (cases "r \<or> files s1 = [] \<or> (\<not> prop_auto_publish_cloud pr \<and> \<not> publish_cloud_flag s1)")
    case True
    then have eq: "onLoadCloud pr env s = (e1, s1)"
      by (rule onLoadCloud_returns [OF sel])
    show ?thesis
      using select_index_range [OF sel] ev start by (auto simp: eq)
  next
    case False
    then have eq: "onLoadCloud pr env s =
           (e1 @ fst (try_block pr env (s1\<lparr>publish_cloud_flag := False\<rparr>)),
            snd (try_block pr env (s1\<lparr>publish_cloud_flag := False\<rparr>)))"
      using onLoadCloud_tries [of pr env s e1 s1] sel by auto
    from False select_index_range [OF sel] show ?thesis
      by (simp add: eq try_block_index try_block_files)
  qed
qed

theorem index_in_range_witness:
  "files (snd (onLoadCloud xyz_props three_files (onInit constructed))) \<noteq> [] \<and>
   index (snd (onLoadCloud xyz_props three_files (onInit constructed))) = 0 \<and>
   files (snd (onLoadCloud xyz_props empty_dir (onInit constructed))) = [] \<and>
   reload_sequence_flag (onInit constructed) \<and>
   index (snd (onLoadCloud xyz_props empty_dir (onInit constructed))) = 0 \<and>
   fst (onLoadCloud xyz_props empty_dir (onInit constructed)) = []"
  using index_in_range [of xyz_props three_files "onInit constructed"]
    index_in_range [of xyz_props empty_dir "onInit constructed"]
  by (simp add: three_files_first_tick empty_dir_first_tick)
     (simp add: playing_def onInit_def constructed_def)

text \<open>The claim of C4 as stated fails: after the first file has been served and the
  sequence has been reloaded from a directory that has become empty, the next tick moves
  the index from 0 to -1 and fires the end-of-sequence signal.\<close>

theorem empty_sequence_counterexample:
  "files served_then_empty = [] \<and> index served_then_empty = 0 \<and>
   previous_index served_then_empty = 0 \<and>
   fst (onLoadCloud xyz_props empty_dir served_then_empty) = [EndOfSequence] \<and>
   index (snd (onLoadCloud xyz_props empty_dir served_then_empty)) = - 1"
  by (simp add: served_then_empty_tick) (simp add: served_then_empty_eq playing_def)

subsection \<open>The first ticks\<close>

lemma three_files_first_tick_requests:
  "onLoadCloud xyz_props three_files
     ((onInit constructed)\<lparr>next_cloud_flag := True, prev_cloud_flag := True\<rparr>) =
     ([Load XYZ ''f0'', Out XYZ (decoded XYZ ''f0'')],
      (playing 0 0 [''f0'', ''f1'', ''f2''] (decoded XYZ ''f0''))
         \<lparr>next_cloud_flag := True, prev_cloud_flag := True\<rparr>)"
  by (simp add: tick_defs demo_defs)

text \<open>C10. \<open>onInit\<close> leaves the reload flag set and \<open>previous_index = -1\<close>, so the first tick
  after it rebuilds the sequence from the directory (sorted when \<open>mode.sort\<close> is on) with
  no reload request. As long as \<open>previous_index = -1\<close>, a tick leaves the index at 0
  whatever the advance and retreat flags are, and \<open>previous_index\<close> stays \<open>-1\<close> unless a
  requested kind was decoded from the first file during that tick.\<close>

theorem first_ticks:
  "reload_sequence_flag (onInit s0) \<and> previous_index (onInit s0) = - 1 \<and>
   files (snd (onLoadCloud pr env (onInit s0))) =
     (if prop_sort pr then sort (searchFiles env (prop_directory pr) (prop_pattern pr))
      else searchFiles env (prop_directory pr) (prop_pattern pr)) \<and>
   (previous_index s = - 1 \<longrightarrow>
      index (snd (onLoadCloud pr env (s\<lparr>next_cloud_flag := a, prev_cloud_flag := b\<rparr>))) = 0 \<and>
      (previous_index (snd (onLoadCloud pr env s)) = - 1 \<or>
       (\<exists>k. requested pr k \<and>
          loadPCDFile env k (files (snd (onLoadCloud pr env s)) ! 0) =
            Loaded (get_cloud k (snd (onLoadCloud pr env s))))))"
proof -
  have tick: "files (snd (onLoadCloud pr env s)) = files (fst (snd (select_index pr env s))) \<and>
      index (snd (onLoadCloud pr env s)) = index (fst (snd (select_index pr env s)))" for s :: "'a component"
  proof -
    obtain e1 s1 r where sel: "select_index pr env s = (e1, s1, r)"
      by (cases "select_index pr env s") auto
    show ?thesis
    proof (cases "r \<or> files s1 = [] \<or> (\<not> prop_auto_publish_cloud pr \<and> \<not> publish_cloud_flag s1)")
      case True
      then show ?thesis by (simp add: onLoadCloud_returns [OF sel] sel)
    next
      case False
      then show ?thesis
        using onLoadCloud_tries [of pr env s e1 s1] sel
        by (auto simp: try_block_index try_block_files)
    qed
  qed
  have discovery: "files (snd (onLoadCloud pr env (onInit s0))) =
     (if prop_sort pr then sort (searchFiles env (prop_directory pr) (prop_pattern pr))
      else searchFiles env (prop_directory pr) (prop_pattern pr))"
    by (simp add: tick) (simp add: select_index_def findFiles_def onInit_def Let_def)
  have zero: "index (snd (onLoadCloud pr env (s\<lparr>next_cloud_flag := a, prev_cloud_flag := b\<rparr>))) = 0"
    if "previous_index s = - 1"
    using that by (simp add: tick) (simp add: select_index_def)
  have still: "previous_index (snd (onLoadCloud pr env s)) = - 1 \<or>
       (\<exists>k. requested pr k \<and>
          loadPCDFile env k (files (snd (onLoadCloud pr env s)) ! 0) =
            Loaded (get_cloud k (snd (onLoadCloud pr env s))))"
    if p: "previous_index s = - 1"
  proof -
    obtain e1 s1 r where sel: "select_index pr env s = (e1, s1, r)"
      by (cases "select_index pr env s") auto
    from p sel have s1: "previous_index s1 = - 1" "index s1 = 0"
      by (auto simp: select_index_def findFiles_def Let_def split: if_splits)
    show ?thesis
    proof (cases "r \<or> files s1 = [] \<or> (\<not> prop_auto_publish_cloud pr \<and> \<not> publish_cloud_flag s1)")
      case True
      then show ?thesis by (simp add: onLoadCloud_returns [OF sel] s1)
    next
      case False
      then have eq: "onLoadCloud pr env s =
           (e1 @ fst (try_block pr env (s1\<lparr>publish_cloud_flag := False\<rparr>)),
            snd (try_block pr env (s1\<lparr>publish_cloud_flag := False\<rparr>)))"
        using onLoadCloud_tries [of pr env s e1 s1] sel by auto
      show ?thesis
        using try_block_slot_ok [of pr env XYZ "s1\<lparr>publish_cloud_flag := False\<rparr>"] s1
        by (auto simp: eq slot_ok_def try_block_files)
    qed
  qed
  show ?thesis
    using discovery zero still by (simp add: onInit_def)
qed

theorem first_ticks_witness:
  "previous_index (onInit (constructed :: (kind \<times> string) component)) = - 1 \<and>
   index (snd (onLoadCloud xyz_props three_files
     ((onInit constructed)\<lparr>next_cloud_flag := True, prev_cloud_flag := True\<rparr>))) = 0 \<and>
   previous_index (snd (onLoadCloud xyz_props three_files (onInit constructed))) = 0 \<and>
   files (snd (onLoadCloud xyz_props three_files (onInit constructed))) = [''f0'', ''f1'', ''f2'']"
  using first_ticks [where ?s0.0 = constructed and pr = xyz_props and env = three_files
      and s = "onInit constructed" and a = True and b = True]
  by (simp add: three_files_first_tick three_files_first_tick_requests)
     (simp add: playing_def onInit_def)

subsection \<open>The request flags after a tick\<close>

text \<open>C5 (as amended). No tick sets a request flag, and every tick clears the reload flag.
  A tick clears the advance and retreat flags when it moves the index (no reload pending
  and \<open>previous_index \<noteq> -1\<close>) and leaves them as they are in the reload branch and in
  the start branch. A tick clears the publish flag when it gets past the range checks
  and the empty-sequence check, and leaves it as it is when it returns at one of them.\<close>

theorem flags_after_tick:
  "reload_sequence_flag (snd (onLoadCloud pr env s)) = False \<and>
   next_cloud_flag (snd (onLoadCloud pr env s)) =
     (next_cloud_flag s \<and> (reload_sequence_flag s \<or> previous_index s = - 1)) \<and>
   prev_cloud_flag (snd (onLoadCloud pr env s)) =
     (prev_cloud_flag s \<and> (reload_sequence_flag s \<or> previous_index s = - 1)) \<and>
   publish_cloud_flag (snd (onLoadCloud pr env s)) =
     (publish_cloud_flag s \<and>
      (snd (snd (select_index pr env s)) \<or> files (snd (onLoadCloud pr env s)) = []))"
proof -
  obtain e1 s1 r where sel: "select_index pr env s = (e1, s1, r)"
    by (cases "select_index pr env s") auto
  have s1: "reload_sequence_flag s1 = False"
    "next_cloud_flag s1 = (next_cloud_flag s \<and> (reload_sequence_flag s \<or> previous_index s = - 1))"
    "prev_cloud_flag s1 = (prev_cloud_flag s \<and> (reload_sequence_flag s \<or> previous_index s = - 1))"
    "publish_cloud_flag s1 = publish_cloud_flag s"
    using sel
    by (auto simp: select_index_def check_first_def check_last_def findFiles_def Let_def
        split: if_splits prod.splits)
  show ?thesis
  proof (cases "r \<or> files s1 = [] \<or> (\<not> prop_auto_publish_cloud pr \<and> \<not> publish_cloud_flag s1)")
    case True
    then show ?thesis
      using s1 by (auto simp: onLoadCloud_returns [OF sel] sel)
  next
    case False
    then have eq: "onLoadCloud pr env s =
           (e1 @ fst (try_block pr env (s1\<lparr>publish_cloud_flag := False\<rparr>)),
            snd (try_block pr env (s1\<lparr>publish_cloud_flag := False\<rparr>)))"
      using onLoadCloud_tries [of pr env s e1 s1] sel by auto
    from False s1 show ?thesis
      by (simp add: eq sel try_block_files try_block_next try_block_prev try_block_reload
          try_block_publish)
  qed
qed

text \<open>The claim of C5 as stated fails: advance and retreat requested before the first
  tick are still pending after it, and a publish request made while the sequence is
  empty is still pending after the next tick.\<close>

theorem flags_counterexample:
  "next_cloud_flag (onLoadPrevCloud (onLoadNextCloud (onInit constructed))) \<and>
   prev_cloud_flag (onLoadPrevCloud (onLoadNextCloud (onInit constructed))) \<and>
   next_cloud_flag (snd (onLoadCloud xyz_props three_files
     (onLoadPrevCloud (onLoadNextCloud (onInit constructed))))) \<and>
   prev_cloud_flag (snd (onLoadCloud xyz_props three_files
     (onLoadPrevCloud (onLoadNextCloud (onInit constructed))))) \<and>
   publish_cloud_flag (onPublishCloud served_then_empty) \<and>
   publish_cloud_flag (snd (onLoadCloud xyz_props empty_dir (onPublishCloud served_then_empty)))"
  by (simp add: onLoadNextCloud_def onLoadPrevCloud_def three_files_first_tick_requests
        served_then_empty_eq)
     (simp add: tick_defs demo_defs)

subsection \<open>Ticks that advance\<close>

lemma try_block_previous_index:
  "previous_index (snd (try_block pr env s)) = previous_index s \<or>
   previous_index (snd (try_block pr env s)) = index s"
  using try_block_slot_ok [of pr env XYZ s] by (auto simp: slot_ok_def)

lemma select_index_advance:
  assumes "prop_auto_next_cloud pr" and "\<not> prop_auto_prev_cloud pr" and "steady s"
  shows "select_index pr env s =
    (if index s + 1 < int (length (files s))
     then ([], s\<lparr>index := index s + 1, next_cloud_flag := False, prev_cloud_flag := False\<rparr>, False)
     else ([EndOfSequence],
           s\<lparr>index := (if prop_loop pr then 0 else int (length (files s)) - 1),
             next_cloud_flag := False, prev_cloud_flag := False\<rparr>,
           \<not> prop_loop pr))"
  using assms
  by (simp add: steady_def select_index_def check_first_def check_last_def index_ge_size_def
      size_minus_one_def Let_def)

text \<open>The tick of a steady component that advances leaves a steady component with the
  same files.\<close>

lemma advance_tick:
  assumes "prop_auto_next_cloud pr" and "\<not> prop_auto_prev_cloud pr" and "steady s"
  shows "steady (snd (onLoadCloud pr env s))"
    and "files (snd (onLoadCloud pr env s)) = files s"
    and "index (snd (onLoadCloud pr env s)) =
           (if index s + 1 < int (length (files s)) then index s + 1
            else if prop_loop pr then 0 else int (length (files s)) - 1)"
proof -
  obtain e1 s1 r where sel: "select_index pr env s = (e1, s1, r)"
    by (cases "select_index pr env s") auto
  from sel [unfolded select_index_advance [OF assms]]
  have s1: "files s1 = files s" "previous_index s1 = previous_index s"
    "\<not> reload_sequence_flag s1" "\<not> prev_cloud_flag s1"
    "index s1 = (if index s + 1 < int (length (files s)) then index s + 1
            else if prop_loop pr then 0 else int (length (files s)) - 1)"
    using assms(3) by (auto simp: steady_def split: if_splits)
  have range: "0 \<le> index s1 \<and> index s1 < int (length (files s1))"
    using select_index_range [OF sel] assms(3) s1 by (simp add: steady_def)
  have "steady (snd (onLoadCloud pr env s)) \<and> files (snd (onLoadCloud pr env s)) = files s \<and>
        index (snd (onLoadCloud pr env s)) = index s1"
  proof (cases "r \<or> files s1 = [] \<or> (\<not> prop_auto_publish_cloud pr \<and> \<not> publish_cloud_flag s1)")
    case True
    then show ?thesis
      using s1 range assms(3) by (simp add: onLoadCloud_returns [OF sel] steady_def)
  next
    case False
    then have eq: "onLoadCloud pr env s =
           (e1 @ fst (try_block pr env (s1\<lparr>publish_cloud_flag := False\<rparr>)),
            snd (try_block pr env (s1\<lparr>publish_cloud_flag := False\<rparr>)))"
      using onLoadCloud_tries [of pr env s e1 s1] sel by auto
    have "previous_index (snd (try_block pr env (s1\<lparr>publish_cloud_flag := False\<rparr>))) \<noteq> - 1"
      using try_block_previous_index [of pr env "s1\<lparr>publish_cloud_flag := False\<rparr>"] s1 range assms(3)
      by (auto simp: steady_def)
    then show ?thesis
      using s1 range assms(3)
      by (simp add: eq steady_def try_block_files try_block_index try_block_prev try_block_reload)
  qed
  then show "steady (snd (onLoadCloud pr env s))"
    and "files (snd (onLoadCloud pr env s)) = files s"
    and "index (snd (onLoadCloud pr env s)) =
           (if index s + 1 < int (length (files s)) then index s + 1
            else if prop_loop pr then 0 else int (length (files s)) - 1)"
    by (simp_all add: s1)
qed

lemma advance_ticks_loop:
  assumes "prop_loop pr" and "prop_auto_next_cloud pr" and "\<not> prop_auto_prev_cloud pr"
    and "steady s"
  shows "steady (ticks pr envs s) \<and> files (ticks pr envs s) = files s \<and>
         index (ticks pr envs s) = (index s + int (length envs)) mod int (length (files s))"
  using assms(4)
proof (induction envs arbitrary: s)
  case Nil
  then show ?case by (simp add: steady_def)
next
  case (Cons env envs)
  let ?s = "snd (onLoadCloud pr env s)"
  note step = advance_tick [OF assms(2,3) Cons.prems, of env]
  have i: "index ?s = (index s + 1) mod int (length (files s))"
  proof (cases "index s + 1 < int (length (files s))")
    case True
    then show ?thesis using step(3) Cons.prems by (simp add: steady_def)
  next
    case False
    with Cons.prems have "index s + 1 = int (length (files s))"
      by (simp add: steady_def)
    then show ?thesis using step(3) assms(1) by simp
  qed
  have "(index ?s + int (length envs)) mod int (length (files s)) =
     ((index s + 1) mod int (length (files s)) + int (length envs)) mod int (length (files s))"
    by (simp only: i)
  also have "\<dots> = (index s + 1 + int (length envs)) mod int (length (files s))"
    by (rule mod_add_left_eq)
  also have "index s + 1 + int (length envs) = index s + int (length (env # envs))"
    by simp
  finally show ?case
    using Cons.IH [OF step(1)] step(2) by simp
qed

lemma load_tick:
  assumes sel: "select_index pr env s = (e1, s1, False)" and "files s1 \<noteq> []"
    and "prop_auto_publish_cloud pr \<or> publish_cloud_flag s1"
    and "index s1 \<noteq> previous_index s1"
    and "\<forall>k. requested pr k \<longrightarrow> loadPCDFile env k (files s1 ! nat (index s1)) = Loaded (dec k)"
  shows "fst (onLoadCloud pr env s) = e1 @ loads pr dec (files s1 ! nat (index s1))"
    and "(\<exists>k. requested pr k) \<Longrightarrow> previous_index (snd (onLoadCloud pr env s)) = index s1"
proof -
  let ?s = "s1\<lparr>publish_cloud_flag := False\<rparr>"
  have eq: "onLoadCloud pr env s = (e1 @ fst (try_block pr env ?s), snd (try_block pr env ?s))"
    using assms(1-3) by (rule onLoadCloud_tries)
  have ne: "index ?s \<noteq> previous_index ?s"
    using assms(4) by simp
  have ok: "\<forall>k. requested pr k \<longrightarrow> loadPCDFile env k (files ?s ! nat (index ?s)) = Loaded (dec k)"
    using assms(5) by simp
  show "fst (onLoadCloud pr env s) = e1 @ loads pr dec (files s1 ! nat (index s1))"
    using try_block_loaded(1) [OF ne ok] by (simp add: eq)
  show "previous_index (snd (onLoadCloud pr env s)) = index s1" if "\<exists>k. requested pr k"
    using try_block_loaded(2) [OF ne ok that] by (simp add: eq)
qed

lemma advance_load_tick:
  assumes "prop_auto_next_cloud pr" and "\<not> prop_auto_prev_cloud pr" and "steady s"
    and "index s + 1 < int (length (files s))"
    and "prop_auto_publish_cloud pr \<or> publish_cloud_flag s"
    and "previous_index s \<noteq> index s + 1"
    and "\<forall>k. requested pr k \<longrightarrow> loadPCDFile env k (files s ! nat (index s + 1)) = Loaded (dec k)"
  shows "fst (onLoadCloud pr env s) = loads pr dec (files s ! nat (index s + 1))"
    and "(\<exists>k. requested pr k) \<Longrightarrow> previous_index (snd (onLoadCloud pr env s)) = index s + 1"
proof -
  let ?s1 = "s\<lparr>index := index s + 1, next_cloud_flag := False, prev_cloud_flag := False\<rparr>"
  have sel: "select_index pr env s = ([], ?s1, False)"
    using assms(4) by (simp add: select_index_advance [OF assms(1-3)])
  have a: "files ?s1 \<noteq> []" "prop_auto_publish_cloud pr \<or> publish_cloud_flag ?s1"
    "index ?s1 \<noteq> previous_index ?s1"
    "\<forall>k. requested pr k \<longrightarrow> loadPCDFile env k (files ?s1 ! nat (index ?s1)) = Loaded (dec k)"
    using assms(3,5,6,7) by (auto simp: steady_def)
  show "fst (onLoadCloud pr env s) = loads pr dec (files s ! nat (index s + 1))"
    using load_tick(1) [OF sel a] by simp
  show "previous_index (snd (onLoadCloud pr env s)) = index s + 1" if "\<exists>k. requested pr k"
    using load_tick(2) [OF sel a that] by simp
qed

text \<open>The tick after \<open>onInit\<close>, when the search finds files and the first one decodes.\<close>

lemma first_load_tick:
  assumes found: "(if prop_sort pr then sort (searchFiles env (prop_directory pr) (prop_pattern pr))
                   else searchFiles env (prop_directory pr) (prop_pattern pr)) = f # fs"
    and "prop_auto_publish_cloud pr \<or> publish_cloud_flag s0"
    and "\<forall>k. requested pr k \<longrightarrow> loadPCDFile env k f = Loaded (dec k)"
    and "\<exists>k. requested pr k"
  shows "fst (onLoadCloud pr env (onInit s0)) = loads pr dec f"
    and "steady (snd (onLoadCloud pr env (onInit s0)))"
    and "files (snd (onLoadCloud pr env (onInit s0))) = f # fs"
    and "index (snd (onLoadCloud pr env (onInit s0))) = 0"
    and "previous_index (snd (onLoadCloud pr env (onInit s0))) = 0"
proof -
  let ?s1 = "(onInit s0)\<lparr>files := f # fs, index := 0, reload_sequence_flag := False\<rparr>"
  have sel: "select_index pr env (onInit s0) = ([], ?s1, False)"
    using found by (simp add: select_index_def findFiles_def Let_def onInit_def)
  have a: "files ?s1 \<noteq> []" "prop_auto_publish_cloud pr \<or> publish_cloud_flag ?s1"
    "index ?s1 \<noteq> previous_index ?s1"
    "\<forall>k. requested pr k \<longrightarrow> loadPCDFile env k (files ?s1 ! nat (index ?s1)) = Loaded (dec k)"
    using assms(2,3) by (auto simp: onInit_def)
  show e: "fst (onLoadCloud pr env (onInit s0)) = loads pr dec f"
    using load_tick(1) [OF sel a] by simp
  show p: "previous_index (snd (onLoadCloud pr env (onInit s0))) = 0"
    using load_tick(2) [OF sel a assms(4)] by simp
  have eq: "snd (onLoadCloud pr env (onInit s0)) =
              snd (try_block pr env (?s1\<lparr>publish_cloud_flag := False\<rparr>))"
    using onLoadCloud_tries [OF sel a(1,2)] by simp
  show "files (snd (onLoadCloud pr env (onInit s0))) = f # fs"
    and "index (snd (onLoadCloud pr env (onInit s0))) = 0"
    by (simp_all add: eq try_block_files try_block_index)
  show "steady (snd (onLoadCloud pr env (onInit s0)))"
    unfolding steady_def using p
    by (simp add: eq try_block_files try_block_index try_block_prev try_block_reload)
       (simp add: onInit_def)
qed

subsection \<open>The scenarios on three files\<close>

lemma run_snoc:
  "run pr (envs @ [env]) s = run pr envs s @ [onLoadCloud pr env (ticks pr envs s)]"
  by (induction envs arbitrary: s) (simp_all add: split_beta)

lemma ticks_append: "ticks pr (envs @ envs') s = ticks pr envs' (ticks pr envs s)"
  by (induction envs arbitrary: s) simp_all

text \<open>The first three ticks after \<open>onInit\<close> on a directory of three files that all decode,
  with automatic advance and automatic publication.\<close>

lemma three_files_played:
  assumes dir: "searchFiles env (prop_directory pr) (prop_pattern pr) = [f0, f1, f2]"
    and srt: "prop_sort pr \<longrightarrow> sorted [f0, f1, f2]"
    and ok: "\<forall>k f. loadPCDFile env k f = Loaded (dec k f)"
    and nxt: "prop_auto_next_cloud pr" and prv: "\<not> prop_auto_prev_cloud pr"
    and pub: "prop_auto_publish_cloud pr" and req: "\<exists>k. requested pr k"
  shows "\<exists>s1 s2 s3.
     run pr [env, env, env] (onInit s0) =
       [(loads pr (\<lambda>k. dec k f0) f0, s1), (loads pr (\<lambda>k. dec k f1) f1, s2),
        (loads pr (\<lambda>k. dec k f2) f2, s3)] \<and>
     ticks pr [env, env, env] (onInit s0) = s3 \<and>
     index s1 = 0 \<and> index s2 = 1 \<and> index s3 = 2 \<and>
     steady s3 \<and> files s3 = [f0, f1, f2] \<and> previous_index s3 = 2"
proof -
  let ?s1 = "snd (onLoadCloud pr env (onInit s0))"
  let ?s2 = "snd (onLoadCloud pr env ?s1)"
  let ?s3 = "snd (onLoadCloud pr env ?s2)"
  have found: "(if prop_sort pr then sort (searchFiles env (prop_directory pr) (prop_pattern pr))
                else searchFiles env (prop_directory pr) (prop_pattern pr)) = f0 # [f1, f2]"
    using srt by (simp add: dir sorted_sort_id del: sorted2_simps)
  have gate: "prop_auto_publish_cloud pr \<or> publish_cloud_flag s" for s :: "'a component"
    using pub by simp
  have ok': "\<forall>k. requested pr k \<longrightarrow> loadPCDFile env k f = Loaded (dec k f)" for f
    using ok by simp
  note t1 = first_load_tick [where ?s0.0 = s0 and dec = "\<lambda>k. dec k f0", OF found gate ok' req]
  have e2: "fst (onLoadCloud pr env ?s1) = loads pr (\<lambda>k. dec k f1) f1"
    and p2: "previous_index ?s2 = 1"
    using advance_load_tick [where s = ?s1 and env = env and dec = "\<lambda>k. dec k f1",
        OF nxt prv t1(2) _ gate] ok' req
    by (simp_all add: t1)
  note t2 = advance_tick [where env = env, OF nxt prv t1(2)]
  have i2: "index ?s2 = 1" and f2: "files ?s2 = [f0, f1, f2]"
    using t2(2,3) by (simp_all add: t1)
  have e3: "fst (onLoadCloud pr env ?s2) = loads pr (\<lambda>k. dec k f2) f2"
    and p3: "previous_index ?s3 = 2"
    using advance_load_tick [where s = ?s2 and env = env and dec = "\<lambda>k. dec k f2",
        OF nxt prv t2(1) _ gate] ok' req
    by (simp_all add: i2 f2 p2)
  note t3 = advance_tick [where env = env, OF nxt prv t2(1)]
  have i3: "index ?s3 = 2" and f3: "files ?s3 = [f0, f1, f2]"
    using t3(2,3) by (simp_all add: i2 f2)
  have "run pr [env, env, env] (onInit s0) =
       [(loads pr (\<lambda>k. dec k f0) f0, ?s1), (loads pr (\<lambda>k. dec k f1) f1, ?s2),
        (loads pr (\<lambda>k. dec k f2) f2, ?s3)]"
    using t1(1) e2 e3 by (simp add: split_beta prod_eq_iff)
  moreover have "ticks pr [env, env, env] (onInit s0) = ?s3"
    by simp
  ultimately show ?thesis
    using t1(4) i2 i3 t3(1) f3 p3 by blast
qed

lemma fourth_tick:
  assumes "\<exists>s1 s2 s3.
     run pr [env, env, env] s =
       [(e1, s1), (e2, s2), (e3, s3)] \<and>
     ticks pr [env, env, env] s = s3 \<and>
     index s1 = 0 \<and> index s2 = 1 \<and> index s3 = 2 \<and>
     steady s3 \<and> files s3 = [f0, f1, f2] \<and> previous_index s3 = 2"
  obtains s3 where
    "map (\<lambda>(e, s). (e, index s)) (run pr [env, env, env, env] s) =
       [(e1, 0), (e2, 1), (e3, 2),
        (fst (onLoadCloud pr env s3), index (snd (onLoadCloud pr env s3)))]"
    and "steady s3" and "files s3 = [f0, f1, f2]" and "previous_index s3 = 2" and "index s3 = 2"
proof -
  from assms obtain s1 s2 s3 where
    r: "run pr [env, env, env] s = [(e1, s1), (e2, s2), (e3, s3)]"
    and t: "ticks pr [env, env, env] s = s3"
    and i: "index s1 = 0" "index s2 = 1" "index s3 = 2"
    and s3: "steady s3" "files s3 = [f0, f1, f2]" "previous_index s3 = 2"
    by blast
  have "run pr [env, env, env, env] s = run pr ([env, env, env] @ [env]) s"
    by simp
  also have "\<dots> = [(e1, s1), (e2, s2), (e3, s3)] @ [onLoadCloud pr env s3]"
    unfolding run_snoc r t ..
  finally have eq: "run pr [env, env, env, env] s =
      [(e1, s1), (e2, s2), (e3, s3)] @ [onLoadCloud pr env s3]" .
  have "map (\<lambda>(e, s). (e, index s)) (run pr [env, env, env, env] s) =
       [(e1, 0), (e2, 1), (e3, 2),
        (fst (onLoadCloud pr env s3), index (snd (onLoadCloud pr env s3)))]"
    unfolding eq by (simp add: i split_beta)
  then show ?thesis
    using s3 i(3) by (rule that)
qed

text \<open>C6. Scenario A: the directory holds the three files \<open>f0\<close>, \<open>f1\<close>, \<open>f2\<close> (in this
  order, which sorting keeps), every decode succeeds, loop mode is off, automatic advance
  and automatic publication are on, and at least one kind is requested. Starting from
  \<open>onInit\<close>, the first three ticks load and emit \<open>f0\<close> at index 0, \<open>f1\<close> at index 1 and
  \<open>f2\<close> at index 2; the fourth tick fires the end-of-sequence signal, leaves the index at
  2, and neither loads nor emits a cloud.\<close>

theorem scenario_A:
  assumes "searchFiles env (prop_directory pr) (prop_pattern pr) = [f0, f1, f2]"
    and "prop_sort pr \<longrightarrow> sorted [f0, f1, f2]"
    and "\<forall>k f. loadPCDFile env k f = Loaded (dec k f)"
    and "prop_auto_next_cloud pr" and "\<not> prop_auto_prev_cloud pr"
    and "prop_auto_publish_cloud pr" and "\<exists>k. requested pr k"
    and "\<not> prop_loop pr"
  shows "map (\<lambda>(e, s). (e, index s)) (run pr [env, env, env, env] (onInit s0)) =
           [(loads pr (\<lambda>k. dec k f0) f0, 0),
            (loads pr (\<lambda>k. dec k f1) f1, 1),
            (loads pr (\<lambda>k. dec k f2) f2, 2),
            ([EndOfSequence], 2)]"
proof -
  from three_files_played [OF assms(1-7), of s0] obtain s3 where
    m: "map (\<lambda>(e, s). (e, index s)) (run pr [env, env, env, env] (onInit s0)) =
       [(loads pr (\<lambda>k. dec k f0) f0, 0), (loads pr (\<lambda>k. dec k f1) f1, 1),
        (loads pr (\<lambda>k. dec k f2) f2, 2),
        (fst (onLoadCloud pr env s3), index (snd (onLoadCloud pr env s3)))]"
    and s3: "steady s3" "files s3 = [f0, f1, f2]" "previous_index s3 = 2" "index s3 = 2"
    by (rule fourth_tick)
  have "select_index pr env s3 =
      ([EndOfSequence], s3\<lparr>index := 2, next_cloud_flag := False, prev_cloud_flag := False\<rparr>, True)"
    using assms(8) s3 by (simp add: select_index_advance [OF assms(4,5) s3(1)])
  then have "onLoadCloud pr env s3 =
      ([EndOfSequence], s3\<lparr>index := 2, next_cloud_flag := False, prev_cloud_flag := False\<rparr>)"
    by (rule onLoadCloud_returns) simp
  then show ?thesis unfolding m by simp
qed

theorem scenario_A_witness:
  "map (\<lambda>(e, s). (e, index s))
     (run xyz_props [three_files, three_files, three_files, three_files] (onInit constructed)) =
   [([Load XYZ ''f0'', Out XYZ [(XYZ, ''f0'')]], 0),
    ([Load XYZ ''f1'', Out XYZ [(XYZ, ''f1'')]], 1),
    ([Load XYZ ''f2'', Out XYZ [(XYZ, ''f2'')]], 2),
    ([EndOfSequence], 2)]"
proof -
  have req: "\<exists>k. requested xyz_props k"
    by (rule exI [of _ XYZ]) (simp add: requested_def xyz_props_def)
  have "map (\<lambda>(e, s). (e, index s))
     (run xyz_props [three_files, three_files, three_files, three_files] (onInit constructed)) =
           [(loads xyz_props (\<lambda>k. decoded k ''f0'') ''f0'', 0),
            (loads xyz_props (\<lambda>k. decoded k ''f1'') ''f1'', 1),
            (loads xyz_props (\<lambda>k. decoded k ''f2'') ''f2'', 2),
            ([EndOfSequence], 2)]"
    by (rule scenario_A [where dec = decoded, OF _ _ _ _ _ _ req])
       (simp_all add: xyz_props_def default_props_def three_files_def)
  then show ?thesis
    by (simp add: loads_def requested_def xyz_props_def default_props_def decoded_def)
qed

subsection \<open>Loop mode\<close>

lemma steady_playing: "steady (playing 0 0 [''f0'', ''f1'', ''f2''] c)"
  by (simp add: steady_def playing_def)

text \<open>C8. With loop mode and automatic advance on (and automatic retreat off), the index
  of a steady component after any number of ticks is its index plus the number of ticks,
  modulo the length of the sequence; so the indices repeat with period \<open>length files\<close>.
  The same holds from \<open>onInit\<close> on when the first tick finds files and decodes the first
  one: the index after \<open>1 + k\<close> ticks is \<open>k\<close> modulo the length.
  Scenario B: on the directory \<open>f0\<close>, \<open>f1\<close>, \<open>f2\<close> with every decode succeeding and
  automatic publication, the first three ticks after \<open>onInit\<close> load \<open>f0\<close>, \<open>f1\<close>, \<open>f2\<close>
  and the fourth fires the end-of-sequence signal, wraps the index to 0, and loads and
  emits \<open>f0\<close>.\<close>

theorem loop_periodic:
  assumes "prop_loop pr" and "prop_auto_next_cloud pr" and "\<not> prop_auto_prev_cloud pr"
  shows
    "(steady s \<longrightarrow>
        index (ticks pr envs s) = (index s + int (length envs)) mod int (length (files s)) \<and>
        (length envs' = length (files s) \<longrightarrow>
           index (ticks pr (envs @ envs') s) = index (ticks pr envs s))) \<and>
     ((if prop_sort pr then sort (searchFiles env (prop_directory pr) (prop_pattern pr))
       else searchFiles env (prop_directory pr) (prop_pattern pr)) = f # fs \<and>
      (prop_auto_publish_cloud pr \<or> publish_cloud_flag s0) \<and>
      (\<forall>k. requested pr k \<longrightarrow> loadPCDFile env k f = Loaded (c k)) \<and> (\<exists>k. requested pr k) \<longrightarrow>
        index (ticks pr (env # envs) (onInit s0)) = int (length envs) mod int (length (f # fs))) \<and>
     (searchFiles env (prop_directory pr) (prop_pattern pr) = [f0, f1, f2] \<and>
      (prop_sort pr \<longrightarrow> sorted [f0, f1, f2]) \<and>
      (\<forall>k f. loadPCDFile env k f = Loaded (dec k f)) \<and>
      prop_auto_publish_cloud pr \<and> (\<exists>k. requested pr k) \<longrightarrow>
        map (\<lambda>(e, s). (e, index s)) (run pr [env, env, env, env] (onInit s0)) =
           [(loads pr (\<lambda>k. dec k f0) f0, 0),
            (loads pr (\<lambda>k. dec k f1) f1, 1),
            (loads pr (\<lambda>k. dec k f2) f2, 2),
            (EndOfSequence # loads pr (\<lambda>k. dec k f0) f0, 0)])"
proof (intro conjI impI)
  assume st: "steady s"
  show "index (ticks pr envs s) = (index s + int (length envs)) mod int (length (files s))"
    using advance_ticks_loop [OF assms st] by simp
next
  assume st: "steady s" and len: "length envs' = length (files s)"
  have "index (ticks pr (envs @ envs') s) =
          (index s + int (length (envs @ envs'))) mod int (length (files s))"
    using advance_ticks_loop [OF assms st] by simp
  also have "\<dots> = (index s + int (length envs)) mod int (length (files s))"
    by (simp add: len add.assoc [symmetric])
  also have "\<dots> = index (ticks pr envs s)"
    using advance_ticks_loop [OF assms st] by simp
  finally show "index (ticks pr (envs @ envs') s) = index (ticks pr envs s)" .
next
  assume h: "(if prop_sort pr then sort (searchFiles env (prop_directory pr) (prop_pattern pr))
       else searchFiles env (prop_directory pr) (prop_pattern pr)) = f # fs \<and>
      (prop_auto_publish_cloud pr \<or> publish_cloud_flag s0) \<and>
      (\<forall>k. requested pr k \<longrightarrow> loadPCDFile env k f = Loaded (c k)) \<and> (\<exists>k. requested pr k)"
  then have found: "(if prop_sort pr
        then sort (searchFiles env (prop_directory pr) (prop_pattern pr))
        else searchFiles env (prop_directory pr) (prop_pattern pr)) = f # fs"
    and gate: "prop_auto_publish_cloud pr \<or> publish_cloud_flag s0"
    and ok: "\<forall>k. requested pr k \<longrightarrow> loadPCDFile env k f = Loaded (c k)"
    and req: "\<exists>k. requested pr k"
    by blast+
  note t1 = first_load_tick [OF found gate ok req]
  have "index (ticks pr (env # envs) (onInit s0)) =
          (0 + int (length envs)) mod int (length (f # fs))"
    using advance_ticks_loop [OF assms t1(2), of envs] by (simp add: t1(3,4))
  then show "index (ticks pr (env # envs) (onInit s0)) =
          int (length envs) mod int (length (f # fs))"
    by simp
next
  assume h: "searchFiles env (prop_directory pr) (prop_pattern pr) = [f0, f1, f2] \<and>
      (prop_sort pr \<longrightarrow> sorted [f0, f1, f2]) \<and>
      (\<forall>k f. loadPCDFile env k f = Loaded (dec k f)) \<and>
      prop_auto_publish_cloud pr \<and> (\<exists>k. requested pr k)"
  then have dir: "searchFiles env (prop_directory pr) (prop_pattern pr) = [f0, f1, f2]"
    and srt: "prop_sort pr \<longrightarrow> sorted [f0, f1, f2]"
    and ok: "\<forall>k f. loadPCDFile env k f = Loaded (dec k f)"
    and pub: "prop_auto_publish_cloud pr" and req: "\<exists>k. requested pr k"
    by blast+
  from three_files_played [OF dir srt ok assms(2,3) pub req, of s0] obtain s3 where
    m: "map (\<lambda>(e, s). (e, index s)) (run pr [env, env, env, env] (onInit s0)) =
       [(loads pr (\<lambda>k. dec k f0) f0, 0), (loads pr (\<lambda>k. dec k f1) f1, 1),
        (loads pr (\<lambda>k. dec k f2) f2, 2),
        (fst (onLoadCloud pr env s3), index (snd (onLoadCloud pr env s3)))]"
    and s3: "steady s3" "files s3 = [f0, f1, f2]" "previous_index s3 = 2" "index s3 = 2"
    by (rule fourth_tick)
  let ?s4 = "s3\<lparr>index := 0, next_cloud_flag := False, prev_cloud_flag := False\<rparr>"
  have sel: "select_index pr env s3 = ([EndOfSequence], ?s4, False)"
    using assms(1) s3 by (simp add: select_index_advance [OF assms(2,3) s3(1)])
  have a: "files ?s4 \<noteq> []" "prop_auto_publish_cloud pr \<or> publish_cloud_flag ?s4"
    "index ?s4 \<noteq> previous_index ?s4"
    "\<forall>k. requested pr k \<longrightarrow> loadPCDFile env k (files ?s4 ! nat (index ?s4)) = Loaded (dec k f0)"
    using s3 pub ok by simp_all
  have "fst (onLoadCloud pr env s3) = EndOfSequence # loads pr (\<lambda>k. dec k f0) f0"
    using load_tick(1) [OF sel a] s3 by simp
  moreover have "index (snd (onLoadCloud pr env s3)) = 0"
    using advance_tick(3) [OF assms(2,3) s3(1), of env] assms(1) s3 by simp
  ultimately show "map (\<lambda>(e, s). (e, index s)) (run pr [env, env, env, env] (onInit s0)) =
           [(loads pr (\<lambda>k. dec k f0) f0, 0),
            (loads pr (\<lambda>k. dec k f1) f1, 1),
            (loads pr (\<lambda>k. dec k f2) f2, 2),
            (EndOfSequence # loads pr (\<lambda>k. dec k f0) f0, 0)]"
    unfolding m by simp
qed

theorem loop_periodic_witness:
  "steady (playing 0 0 [''f0'', ''f1'', ''f2''] (decoded XYZ ''f0'')) \<and>
   index (ticks loop_props [three_files, three_files, three_files, three_files]
     (playing 0 0 [''f0'', ''f1'', ''f2''] (decoded XYZ ''f0''))) = 1 \<and>
   index (ticks loop_props [three_files, three_files, three_files, three_files, three_files,
       three_files, three_files]
     (playing 0 0 [''f0'', ''f1'', ''f2''] (decoded XYZ ''f0''))) = 1 \<and>
   map (\<lambda>(e, s). (e, index s))
     (run loop_props [three_files, three_files, three_files, three_files] (onInit constructed)) =
   [([Load XYZ ''f0'', Out XYZ [(XYZ, ''f0'')]], 0),
    ([Load XYZ ''f1'', Out XYZ [(XYZ, ''f1'')]], 1),
    ([Load XYZ ''f2'', Out XYZ [(XYZ, ''f2'')]], 2),
    ([EndOfSequence, Load XYZ ''f0'', Out XYZ [(XYZ, ''f0'')]], 0)]"
proof -
  have p: "prop_loop loop_props" "prop_auto_next_cloud loop_props"
    "\<not> prop_auto_prev_cloud loop_props"
    by (simp_all add: loop_props_def xyz_props_def default_props_def)
  have req: "\<exists>k. requested loop_props k"
    by (rule exI [of _ XYZ]) (simp add: requested_def loop_props_def xyz_props_def)
  have h: "searchFiles three_files (prop_directory loop_props) (prop_pattern loop_props) =
        [''f0'', ''f1'', ''f2''] \<and>
      (prop_sort loop_props \<longrightarrow> sorted [''f0'', ''f1'', ''f2'']) \<and>
      (\<forall>k f. loadPCDFile three_files k f = Loaded (decoded k f)) \<and>
      prop_auto_publish_cloud loop_props \<and> (\<exists>k. requested loop_props k)"
    using req by (simp add: loop_props_def xyz_props_def default_props_def three_files_def)
  note th = loop_periodic [OF p, where s = "playing 0 0 [''f0'', ''f1'', ''f2''] (decoded XYZ ''f0'')"
      and envs = "[three_files, three_files, three_files, three_files]"
      and envs' = "[three_files, three_files, three_files]"
      and env = three_files and dec = decoded and ?f0.0 = "''f0''" and ?f1.0 = "''f1''"
      and ?f2.0 = "''f2''" and ?s0.0 = constructed]
  have l: "loads loop_props (\<lambda>k. decoded k f) f = [Load XYZ f, Out XYZ [(XYZ, f)]]" for f
    by (simp add: loads_def requested_def loop_props_def xyz_props_def default_props_def decoded_def)
  from th h steady_playing [of "decoded XYZ ''f0''"]
  have "index (ticks loop_props [three_files, three_files, three_files, three_files]
     (playing 0 0 [''f0'', ''f1'', ''f2''] (decoded XYZ ''f0''))) =
       (index (playing 0 0 [''f0'', ''f1'', ''f2''] (decoded XYZ ''f0'')) + 4) mod 3"
    and "index (ticks loop_props ([three_files, three_files, three_files, three_files] @
        [three_files, three_files, three_files])
     (playing 0 0 [''f0'', ''f1'', ''f2''] (decoded XYZ ''f0''))) =
       index (ticks loop_props [three_files, three_files, three_files, three_files]
     (playing 0 0 [''f0'', ''f1'', ''f2''] (decoded XYZ ''f0'')))"
    and "map (\<lambda>(e, s). (e, index s))
     (run loop_props [three_files, three_files, three_files, three_files] (onInit constructed)) =
     [([Load XYZ ''f0'', Out XYZ [(XYZ, ''f0'')]], 0),
      ([Load XYZ ''f1'', Out XYZ [(XYZ, ''f1'')]], 1),
      ([Load XYZ ''f2'', Out XYZ [(XYZ, ''f2'')]], 2),
      ([EndOfSequence, Load XYZ ''f0'', Out XYZ [(XYZ, ''f0'')]], 0)]"
    unfolding l by (simp_all add: playing_def del: ticks.simps run.simps)
  then show ?thesis
    using steady_playing [of "decoded XYZ ''f0''"] by (simp add: playing_def del: ticks.simps run.simps)
qed

subsection \<open>The end-of-sequence signal\<close>

lemma onLoadCloud_events:
  "\<exists>e2. fst (onLoadCloud pr env s) = fst (select_index pr env s) @ e2 \<and> EndOfSequence \<notin> set e2"
proof -
  obtain e1 s1 r where sel: "select_index pr env s = (e1, s1, r)"
    by (cases "select_index pr env s") auto
  show ?thesis
  proof (cases "r \<or> files s1 = [] \<or> (\<not> prop_auto_publish_cloud pr \<and> \<not> publish_cloud_flag s1)")
    case True
    then show ?thesis by (simp add: onLoadCloud_returns [OF sel] sel)
  next
    case False
    then have "onLoadCloud pr env s =
           (e1 @ fst (try_block pr env (s1\<lparr>publish_cloud_flag := False\<rparr>)),
            snd (try_block pr env (s1\<lparr>publish_cloud_flag := False\<rparr>)))"
      using onLoadCloud_tries [of pr env s e1 s1] sel by auto
    then show ?thesis
      using try_block_no_signal [of pr env "s1\<lparr>publish_cloud_flag := False\<rparr>"]
      by (simp add: sel)
  qed
qed

lemma clamp_tick:
  assumes "prop_auto_next_cloud pr" and "\<not> prop_auto_prev_cloud pr" and "steady s"
    and "index s = int (length (files s)) - 1" and "\<not> prop_loop pr"
  shows "onLoadCloud pr env s =
           ([EndOfSequence],
            s\<lparr>index := int (length (files s)) - 1, next_cloud_flag := False,
              prev_cloud_flag := False\<rparr>)"
proof -
  have "select_index pr env s =
      ([EndOfSequence],
       s\<lparr>index := int (length (files s)) - 1, next_cloud_flag := False, prev_cloud_flag := False\<rparr>,
       True)"
    using assms(4,5) by (simp add: select_index_advance [OF assms(1-3)])
  then show ?thesis
    by (rule onLoadCloud_returns) simp
qed

lemma clamp_run:
  assumes "prop_auto_next_cloud pr" and "\<not> prop_auto_prev_cloud pr" and "\<not> prop_loop pr"
    and "steady s" and "index s = int (length (files s)) - 1"
  shows "map (\<lambda>(e, s). (e, index s)) (run pr envs s) =
           replicate (length envs) ([EndOfSequence], index s)"
  using assms(4,5)
proof (induction envs arbitrary: s)
  case Nil
  show ?case by simp
next
  case (Cons env envs)
  let ?s = "s\<lparr>index := int (length (files s)) - 1, next_cloud_flag := False,
              prev_cloud_flag := False\<rparr>"
  have t: "onLoadCloud pr env s = ([EndOfSequence], ?s)"
    by (rule clamp_tick [OF assms(1,2) Cons.prems assms(3)])
  have "steady ?s" and "index ?s = int (length (files ?s)) - 1" and "index ?s = index s"
    using Cons.prems by (simp_all add: steady_def)
  from Cons.IH [OF this(1,2)] this(3) show ?case
    by (simp add: t)
qed

lemma three_files_second_tick:
  "onLoadCloud xyz_props three_files (playing 0 0 [''f0'', ''f1'', ''f2''] c) =
     ([Load XYZ ''f1'', Out XYZ (decoded XYZ ''f1'')],
      playing 1 1 [''f0'', ''f1'', ''f2''] (decoded XYZ ''f1''))"
  by (simp add: tick_defs demo_defs)

lemma three_files_third_tick:
  "onLoadCloud xyz_props three_files (playing 1 1 [''f0'', ''f1'', ''f2''] c) =
     ([Load XYZ ''f2'', Out XYZ (decoded XYZ ''f2'')],
      playing 2 2 [''f0'', ''f1'', ''f2''] (decoded XYZ ''f2''))"
  by (simp add: tick_defs demo_defs)

lemma three_files_clamped_tick:
  "onLoadCloud xyz_props three_files (playing 2 2 [''f0'', ''f1'', ''f2''] c) =
     ([EndOfSequence], playing 2 2 [''f0'', ''f1'', ''f2''] c)"
  by (simp add: tick_defs demo_defs)

lemma three_files_loop_tick:
  "onLoadCloud loop_props three_files (playing 2 2 [''f0'', ''f1'', ''f2''] c) =
     ([EndOfSequence, Load XYZ ''f0'', Out XYZ (decoded XYZ ''f0'')],
      playing 0 0 [''f0'', ''f1'', ''f2''] (decoded XYZ ''f0''))"
  by (simp add: tick_defs demo_defs loop_props_def)

lemma three_files_reload_tick:
  "onLoadCloud xyz_props three_files
     (onSequenceReload (playing 2 2 [''f0'', ''f1'', ''f2''] (decoded XYZ ''f2''))) =
     ([Load XYZ ''f0'', Out XYZ (decoded XYZ ''f0'')],
      playing 0 0 [''f0'', ''f1'', ''f2''] (decoded XYZ ''f0''))"
  by (simp add: tick_defs demo_defs)

text \<open>C3 (as amended). On a non-empty sequence, with automatic advance on and no retreat
  (automatic retreat off, no retreat request pending), take a tick that starts with the
  index at the last file. When a reload is pending or no cloud has been served yet
  (\<open>previous_index = -1\<close>), the tick fires no end-of-sequence signal and sets the index
  to 0. Otherwise it fires the signal exactly once, whether loop mode is on or off. With
  loop mode on the index wraps to 0. With loop mode off the index is put back to
  \<open>length files - 1\<close> and the tick ends there, so the same happens at the next tick: over
  any number of consecutive ticks, each tick fires the signal once, loads and emits
  nothing, and leaves the index at the last file.\<close>

theorem end_signal_every_tick:
  assumes "prop_auto_next_cloud pr" and "\<not> prop_auto_prev_cloud pr" and "\<not> prev_cloud_flag s"
    and "files s \<noteq> []" and "index s = int (length (files s)) - 1"
  shows "(reload_sequence_flag s \<or> previous_index s = - 1 \<longrightarrow>
            EndOfSequence \<notin> set (fst (onLoadCloud pr env s)) \<and>
            index (snd (onLoadCloud pr env s)) = 0) \<and>
         (\<not> reload_sequence_flag s \<and> previous_index s \<noteq> - 1 \<longrightarrow>
            length (filter (\<lambda>e. e = EndOfSequence) (fst (onLoadCloud pr env s))) = 1 \<and>
            (prop_loop pr \<longrightarrow> index (snd (onLoadCloud pr env s)) = 0) \<and>
            (\<not> prop_loop pr \<longrightarrow>
               map (\<lambda>(e, s). (e, index s)) (run pr envs s) =
                 replicate (length envs) ([EndOfSequence], index s)))"
proof (intro conjI impI)
  assume start: "reload_sequence_flag s \<or> previous_index s = - 1"
  then have sel: "fst (select_index pr env s) = []"
    "index (fst (snd (select_index pr env s))) = 0"
    by (auto simp: select_index_def)
  obtain e2 where "fst (onLoadCloud pr env s) = [] @ e2" and "EndOfSequence \<notin> set e2"
    using onLoadCloud_events [of pr env s] by (auto simp: sel)
  then show "EndOfSequence \<notin> set (fst (onLoadCloud pr env s))"
    by simp
  show "index (snd (onLoadCloud pr env s)) = 0"
    by (simp add: onLoadCloud_index sel)
next
  assume "\<not> reload_sequence_flag s \<and> previous_index s \<noteq> - 1"
  then have st: "steady s"
    using assms(3-5) by (simp add: steady_def)
  have sel: "fst (select_index pr env s) = [EndOfSequence]"
    using assms(5) by (simp add: select_index_advance [OF assms(1,2) st])
  obtain e2 where "fst (onLoadCloud pr env s) = [EndOfSequence] @ e2" and "EndOfSequence \<notin> set e2"
    using onLoadCloud_events [of pr env s] by (auto simp: sel)
  then show "length (filter (\<lambda>e. e = EndOfSequence) (fst (onLoadCloud pr env s))) = 1"
    by (auto simp: filter_empty_conv)
  show "index (snd (onLoadCloud pr env s)) = 0" if "prop_loop pr"
    using advance_tick(3) [OF assms(1,2) st, of env] assms(5) that by simp
  show "map (\<lambda>(e, s). (e, index s)) (run pr envs s) =
              replicate (length envs) ([EndOfSequence], index s)" if "\<not> prop_loop pr"
    using that by (rule clamp_run [OF assms(1,2) _ st assms(5)])
qed

theorem end_signal_every_tick_witness:
  "\<not> reload_sequence_flag (playing 2 2 [''f0'', ''f1'', ''f2''] (decoded XYZ ''f2'')) \<and>
   previous_index (playing 2 2 [''f0'', ''f1'', ''f2''] (decoded XYZ ''f2'')) = 2 \<and>
   fst (onLoadCloud loop_props three_files (playing 2 2 [''f0'', ''f1'', ''f2''] (decoded XYZ ''f2''))) =
     [EndOfSequence, Load XYZ ''f0'', Out XYZ (decoded XYZ ''f0'')] \<and>
   index (snd (onLoadCloud loop_props three_files
     (playing 2 2 [''f0'', ''f1'', ''f2''] (decoded XYZ ''f2'')))) = 0 \<and>
   map (\<lambda>(e, s). (e, index s))
     (run xyz_props [three_files, three_files, three_files]
        (playing 2 2 [''f0'', ''f1'', ''f2''] (decoded XYZ ''f2''))) =
     [([EndOfSequence], 2), ([EndOfSequence], 2), ([EndOfSequence], 2)] \<and>
   reload_sequence_flag
     (onSequenceReload (playing 2 2 [''f0'', ''f1'', ''f2''] (decoded XYZ ''f2''))) \<and>
   fst (onLoadCloud xyz_props three_files
     (onSequenceReload (playing 2 2 [''f0'', ''f1'', ''f2''] (decoded XYZ ''f2'')))) =
     [Load XYZ ''f0'', Out XYZ (decoded XYZ ''f0'')] \<and>
   index (snd (onLoadCloud xyz_props three_files
     (onSequenceReload (playing 2 2 [''f0'', ''f1'', ''f2''] (decoded XYZ ''f2''))))) = 0"
proof -
  let ?s = "playing 2 2 [''f0'', ''f1'', ''f2''] (decoded XYZ ''f2'') :: (kind \<times> string) component"
  let ?t = "onSequenceReload (playing 2 2 [''f0'', ''f1'', ''f2''] (decoded XYZ ''f2''))
    :: (kind \<times> string) component"
  have st: "\<not> prev_cloud_flag ?s" "files ?s \<noteq> []" "index ?s = int (length (files ?s)) - 1"
    and i: "index ?s = 2" "\<not> reload_sequence_flag ?s" "previous_index ?s = 2"
    and tt: "\<not> prev_cloud_flag ?t" "files ?t \<noteq> []" "index ?t = int (length (files ?t)) - 1"
      "reload_sequence_flag ?t"
    by (simp_all add: playing_def onSequenceReload_def)
  have p: "prop_auto_next_cloud xyz_props" "\<not> prop_auto_prev_cloud xyz_props"
    "\<not> prop_loop xyz_props"
    "prop_auto_next_cloud loop_props" "\<not> prop_auto_prev_cloud loop_props"
    "prop_loop loop_props"
    by (simp_all add: loop_props_def xyz_props_def default_props_def)
  have "map (\<lambda>(e, s). (e, index s)) (run xyz_props [three_files, three_files, three_files] ?s) =
     [([EndOfSequence], 2), ([EndOfSequence], 2), ([EndOfSequence], 2)]"
    using end_signal_every_tick [OF p(1,2) st, of three_files "[three_files, three_files, three_files]"]
      p(3) i by (simp add: numeral_3_eq_3 del: run.simps)
  moreover have "index (snd (onLoadCloud loop_props three_files ?s)) = 0"
    using end_signal_every_tick [OF p(4,5) st, of three_files "[]"] p(6) i by simp
  moreover have "index (snd (onLoadCloud xyz_props three_files ?t)) = 0"
    using end_signal_every_tick [OF p(1,2) tt(1-3), of three_files "[]"] tt(4) by simp
  ultimately show ?thesis
    using i tt(4) by (simp add: three_files_loop_tick three_files_reload_tick del: run.simps)
qed

text \<open>The claim of C3 as stated fails: in scenario A continued for two more ticks, the
  signal is fired at the fourth, the fifth and the sixth tick, once per tick while the
  index stays at the last file.\<close>

theorem end_signal_counterexample:
  "map (\<lambda>(e, s). (e, index s))
     (run xyz_props [three_files, three_files, three_files, three_files, three_files, three_files]
        (onInit constructed)) =
   [([Load XYZ ''f0'', Out XYZ [(XYZ, ''f0'')]], 0),
    ([Load XYZ ''f1'', Out XYZ [(XYZ, ''f1'')]], 1),
    ([Load XYZ ''f2'', Out XYZ [(XYZ, ''f2'')]], 2),
    ([EndOfSequence], 2), ([EndOfSequence], 2), ([EndOfSequence], 2)]"
  by (simp add: three_files_first_tick three_files_second_tick three_files_third_tick
        three_files_clamped_tick)
     (simp add: playing_def decoded_def)

subsection \<open>The stored clouds\<close>


lemma select_index_clouds:
  "get_cloud k (fst (snd (select_index pr env s))) = get_cloud k s"
  and select_index_previous:
  "previous_index (fst (snd (select_index pr env s))) = previous_index s"
  by (cases k; simp add: select_index_def check_first_def check_last_def findFiles_def Let_def
        split_beta get_cloud_def)+



subsection \<open>Exceptions of the loader\<close>

text \<open>A block whose loader does not throw: its events are about its own kind, it leaves
  the clouds of the other kinds alone, and a cloud it decodes is written out and stored.\<close>

lemma read_cloud_no_throw:
  assumes "requested pr j \<longrightarrow> loadPCDFile env j (files s ! nat (index s)) \<noteq> Throws"
  obtains e s' where "read_cloud pr env j s = (e, s', False)"
    and "\<forall>x \<in> set e. event_kind x = Some j"
    and "control s' = control s"
    and "\<forall>i. i \<noteq> j \<longrightarrow> get_cloud i s' = get_cloud i s"
    and "\<forall>c. requested pr j \<and> loadPCDFile env j (files s ! nat (index s)) = Loaded c \<longrightarrow>
           Out j c \<in> set e \<and> get_cloud j s' = c"
proof (cases rule: read_cloud_cases [of pr j env s])
  case skip
  then show ?thesis by (intro that [of "[]" s]) simp_all
next
  case throws
  with assms show ?thesis by simp
next
  case failed
  then show ?thesis
    by (intro that [of "[Load j (files s ! nat (index s))]" s]) simp_all
next
  case (loaded c)
  then show ?thesis
    by (intro that [of "[Load j (files s ! nat (index s)), Out j c]"
          "set_cloud j c (s\<lparr>previous_index := index s\<rparr>)"])
       (simp_all add: control_set_cloud get_set_cloud get_cloud_previous_index, simp add: control_def)
qed

lemma read_cloud_throws:
  assumes "requested pr k" and "loadPCDFile env k (files s ! nat (index s)) = Throws"
  shows "read_cloud pr env k s = ([Load k (files s ! nat (index s))], s, True)"
  using assms by (simp add: read_cloud_def)

text \<open>The \<open>try\<close> statement when the loader of kind \<open>k\<close> is the first to throw.\<close>

lemma try_block_throws:
  assumes ne: "index s \<noteq> previous_index s"
    and req: "requested pr k" and thr: "loadPCDFile env k (files s ! nat (index s)) = Throws"
    and before: "\<forall>j. position j < position k \<and> requested pr j \<longrightarrow>
                  loadPCDFile env j (files s ! nat (index s)) \<noteq> Throws"
  shows "\<exists>e. fst (try_block pr env s) = e @ [Load k (files s ! nat (index s))] \<and>
           (\<forall>x \<in> set e. \<exists>j. event_kind x = Some j \<and> position j < position k) \<and>
           (\<forall>j c. position j < position k \<and> requested pr j \<and>
                  loadPCDFile env j (files s ! nat (index s)) = Loaded c \<longrightarrow>
                  Out j c \<in> set e \<and> get_cloud j (snd (try_block pr env s)) = c)"
    and "\<forall>j. position k \<le> position j \<longrightarrow> get_cloud j (snd (try_block pr env s)) = get_cloud j s"
proof -
  let ?f = "files s ! nat (index s)"
  let ?P = "\<lambda>e s'. (\<forall>x \<in> set e. \<exists>j. event_kind x = Some j \<and> position j < position k) \<and>
           (\<forall>j c. position j < position k \<and> requested pr j \<and>
                  loadPCDFile env j ?f = Loaded c \<longrightarrow> Out j c \<in> set e \<and> get_cloud j s' = c) \<and>
           (\<forall>j. position k \<le> position j \<longrightarrow> get_cloud j s' = get_cloud j s)"
  have "\<exists>e. try_block pr env s = (e @ [Load k ?f], snd (try_block pr env s)) \<and>
          ?P e (snd (try_block pr env s))"
  proof (cases k)
    case XYZ
    have "try_block pr env s = ([] @ [Load k ?f], s)"
      using ne read_cloud_throws [OF req thr] by (simp add: try_block_def XYZ)
    then show ?thesis by (simp add: XYZ)
  next
    case XYZRGB
    have "requested pr XYZ \<longrightarrow> loadPCDFile env XYZ ?f \<noteq> Throws"
      using before by (simp add: XYZRGB)
    then obtain e1 s1 where r1: "read_cloud pr env XYZ s = (e1, s1, False)"
      and e1: "\<forall>x \<in> set e1. event_kind x = Some XYZ"
      and c1: "control s1 = control s"
      and o1: "\<forall>i. i \<noteq> XYZ \<longrightarrow> get_cloud i s1 = get_cloud i s"
      and l1: "\<forall>c. requested pr XYZ \<and> loadPCDFile env XYZ ?f = Loaded c \<longrightarrow>
           Out XYZ c \<in> set e1 \<and> get_cloud XYZ s1 = c"
      by (rule read_cloud_no_throw)
    have same: "files s1 ! nat (index s1) = ?f"
      using c1 by (simp add: control_def)
    have r2: "read_cloud pr env XYZRGB s1 = ([Load XYZRGB ?f], s1, True)"
      using read_cloud_throws [of pr XYZRGB env s1] req thr by (simp add: XYZRGB same)
    have tb: "try_block pr env s = (e1 @ [Load k ?f], s1)"
      using ne by (simp add: try_block_def r1 r2 XYZRGB)
    have "?P e1 s1"
    proof (intro conjI allI impI ballI)
      fix x assume "x \<in> set e1"
      with e1 show "\<exists>j. event_kind x = Some j \<and> position j < position k"
        by (auto simp: XYZRGB)
    next
      fix j c
      assume h: "position j < position k \<and> requested pr j \<and> loadPCDFile env j ?f = Loaded c"
      then have "j = XYZ" by (cases j) (simp_all add: XYZRGB)
      with h l1 show "Out j c \<in> set e1" and "get_cloud j s1 = c" by auto
    next
      fix j assume "position k \<le> position j"
      then have "j \<noteq> XYZ" by (cases j) (simp_all add: XYZRGB)
      with o1 show "get_cloud j s1 = get_cloud j s" by simp
    qed
    then show ?thesis by (simp add: tb del: set_append)
  next
    case XYZSIFT
    have "requested pr XYZ \<longrightarrow> loadPCDFile env XYZ ?f \<noteq> Throws"
      using before by (simp add: XYZSIFT)
    then obtain e1 s1 where r1: "read_cloud pr env XYZ s = (e1, s1, False)"
      and e1: "\<forall>x \<in> set e1. event_kind x = Some XYZ"
      and c1: "control s1 = control s"
      and o1: "\<forall>i. i \<noteq> XYZ \<longrightarrow> get_cloud i s1 = get_cloud i s"
      and l1: "\<forall>c. requested pr XYZ \<and> loadPCDFile env XYZ ?f = Loaded c \<longrightarrow>
           Out XYZ c \<in> set e1 \<and> get_cloud XYZ s1 = c"
      by (rule read_cloud_no_throw)
    have same1: "files s1 ! nat (index s1) = ?f"
      using c1 by (simp add: control_def)
    have "requested pr XYZRGB \<longrightarrow> loadPCDFile env XYZRGB (files s1 ! nat (index s1)) \<noteq> Throws"
      using before by (simp add: XYZSIFT same1)
    then obtain e2 s2 where r2: "read_cloud pr env XYZRGB s1 = (e2, s2, False)"
      and e2: "\<forall>x \<in> set e2. event_kind x = Some XYZRGB"
      and c2: "control s2 = control s1"
      and o2: "\<forall>i. i \<noteq> XYZRGB \<longrightarrow> get_cloud i s2 = get_cloud i s1"
      and l2: "\<forall>c. requested pr XYZRGB \<and> loadPCDFile env XYZRGB (files s1 ! nat (index s1)) = Loaded c \<longrightarrow>
           Out XYZRGB c \<in> set e2 \<and> get_cloud XYZRGB s2 = c"
      by (rule read_cloud_no_throw)
    have same2: "files s2 ! nat (index s2) = ?f"
      using c1 c2 by (simp add: control_def)
    have r3: "read_cloud pr env XYZSIFT s2 = ([Load XYZSIFT ?f], s2, True)"
      using read_cloud_throws [of pr XYZSIFT env s2] req thr by (simp add: XYZSIFT same2)
    have tb: "try_block pr env s = ((e1 @ e2) @ [Load k ?f], s2)"
      using ne by (simp add: try_block_def r1 r2 r3 XYZSIFT)
    have "?P (e1 @ e2) s2"
    proof (intro conjI allI impI ballI)
      fix x assume "x \<in> set (e1 @ e2)"
      with e1 e2 show "\<exists>j. event_kind x = Some j \<and> position j < position k"
        by (auto simp: XYZSIFT)
    next
      fix j c
      assume h: "position j < position k \<and> requested pr j \<and> loadPCDFile env j ?f = Loaded c"
      then consider "j = XYZ" | "j = XYZRGB" by (cases j) (simp_all add: XYZSIFT)
      then show "Out j c \<in> set (e1 @ e2)" and "get_cloud j s2 = c"
        using h l1 l2 o2 by (auto simp: same1)
    next
      fix j assume "position k \<le> position j"
      then have "j = XYZSIFT" by (cases j) (simp_all add: XYZSIFT)
      with o1 o2 show "get_cloud j s2 = get_cloud j s" by simp
    qed
    then show ?thesis unfolding tb by (intro exI [of _ "e1 @ e2"]) simp
  qed
  then show "\<exists>e. fst (try_block pr env s) = e @ [Load k (files s ! nat (index s))] \<and>
           (\<forall>x \<in> set e. \<exists>j. event_kind x = Some j \<and> position j < position k) \<and>
           (\<forall>j c. position j < position k \<and> requested pr j \<and>
                  loadPCDFile env j (files s ! nat (index s)) = Loaded c \<longrightarrow>
                  Out j c \<in> set e \<and> get_cloud j (snd (try_block pr env s)) = c)"
    and "\<forall>j. position k \<le> position j \<longrightarrow> get_cloud j (snd (try_block pr env s)) = get_cloud j s"
    by (metis fst_conv)+
qed

lemma rgb_throws_first_tick:
  "fst (onLoadCloud all_kinds rgb_throws (onInit constructed)) =
     [Load XYZ ''f0'', Out XYZ [(XYZ, ''f0'')], Load XYZRGB ''f0'']"
  by (simp add: tick_defs demo_defs two_kinds_def all_kinds_def rgb_throws_def)

lemma xyz_throws_first_tick:
  "onLoadCloud two_kinds xyz_throws (onInit constructed) =
     ([Load XYZ ''f0''],
      (onInit constructed)\<lparr>files := [''f0'', ''f1'', ''f2''], reload_sequence_flag := False\<rparr>)"
  by (simp add: tick_defs demo_defs two_kinds_def xyz_throws_def)

text \<open>C1 (as amended). An exception thrown by the loader during the load phase is caught
  and the tick returns normally, but it ends the load phase. The kinds are loaded in the
  order xyz, xyzrgb, xyzsift. When the loader of kind \<open>k\<close> is the first to throw, the
  events of the load phase are those of the kinds before \<open>k\<close> followed by the call of the
  loader for \<open>k\<close>: a kind before \<open>k\<close> whose decode succeeded has been emitted and stored,
  while \<open>k\<close> and every kind after it are neither emitted nor, for the later ones, attempted,
  and their stored clouds are as before the tick.\<close>

theorem exception_ends_loading:
  assumes "select_index pr env s = (e1, s1, False)" and "files s1 \<noteq> []"
    and "prop_auto_publish_cloud pr \<or> publish_cloud_flag s1"
    and "index s1 \<noteq> previous_index s1"
    and "requested pr k" and "loadPCDFile env k (files s1 ! nat (index s1)) = Throws"
    and "\<forall>j. position j < position k \<and> requested pr j \<longrightarrow>
           loadPCDFile env j (files s1 ! nat (index s1)) \<noteq> Throws"
  shows "(\<exists>e. fst (onLoadCloud pr env s) = e1 @ e @ [Load k (files s1 ! nat (index s1))] \<and>
            (\<forall>x \<in> set e. \<exists>j. event_kind x = Some j \<and> position j < position k) \<and>
            (\<forall>j c. position j < position k \<and> requested pr j \<and>
                   loadPCDFile env j (files s1 ! nat (index s1)) = Loaded c \<longrightarrow>
                   Out j c \<in> set e \<and> get_cloud j (snd (onLoadCloud pr env s)) = c)) \<and>
         (\<forall>j. position k \<le> position j \<longrightarrow>
            get_cloud j (snd (onLoadCloud pr env s)) = get_cloud j s)"
proof -
  let ?s = "s1\<lparr>publish_cloud_flag := False\<rparr>"
  have eq: "onLoadCloud pr env s = (e1 @ fst (try_block pr env ?s), snd (try_block pr env ?s))"
    using assms(1-3) by (rule onLoadCloud_tries)
  have a: "index ?s \<noteq> previous_index ?s"
    "loadPCDFile env k (files ?s ! nat (index ?s)) = Throws"
    "\<forall>j. position j < position k \<and> requested pr j \<longrightarrow>
           loadPCDFile env j (files ?s ! nat (index ?s)) \<noteq> Throws"
    using assms(4,6,7) by simp_all
  have c: "get_cloud j ?s = get_cloud j s" for j
    using select_index_clouds [of j pr env s] by (simp add: assms(1) get_cloud_publish)
  note tb = try_block_throws [OF a(1) assms(5) a(2,3)]
  from tb(1) obtain e where
    e: "fst (try_block pr env ?s) = e @ [Load k (files s1 ! nat (index s1))]"
      "\<forall>x \<in> set e. \<exists>j. event_kind x = Some j \<and> position j < position k"
      "\<forall>j c. position j < position k \<and> requested pr j \<and>
                  loadPCDFile env j (files s1 ! nat (index s1)) = Loaded c \<longrightarrow>
                  Out j c \<in> set e \<and> get_cloud j (snd (try_block pr env ?s)) = c"
    by auto
  have "fst (onLoadCloud pr env s) = e1 @ e @ [Load k (files s1 ! nat (index s1))]"
    by (simp add: eq e(1))
  with e(2,3) tb(2) show ?thesis
    by (auto simp: eq c)
qed

theorem exception_ends_loading_witness:
  "requested all_kinds XYZ \<and> requested all_kinds XYZRGB \<and> requested all_kinds XYZSIFT \<and>
   loadPCDFile rgb_throws XYZ ''f0'' = Loaded [(XYZ, ''f0'')] \<and>
   loadPCDFile rgb_throws XYZRGB ''f0'' = Throws \<and>
   fst (onLoadCloud all_kinds rgb_throws (onInit constructed)) =
     [Load XYZ ''f0'', Out XYZ [(XYZ, ''f0'')], Load XYZRGB ''f0''] \<and>
   get_cloud XYZ (snd (onLoadCloud all_kinds rgb_throws (onInit constructed))) = [(XYZ, ''f0'')] \<and>
   get_cloud XYZRGB (snd (onLoadCloud all_kinds rgb_throws (onInit constructed))) = [] \<and>
   get_cloud XYZSIFT (snd (onLoadCloud all_kinds rgb_throws (onInit constructed))) = []"
proof -
  let ?s1 = "(onInit constructed)\<lparr>files := [''f0'', ''f1'', ''f2''], index := 0,
      reload_sequence_flag := False\<rparr> :: (kind \<times> string) component"
  have sel: "select_index all_kinds rgb_throws (onInit constructed) = ([], ?s1, False)"
    by (simp add: select_index_def findFiles_def Let_def demo_defs two_kinds_def all_kinds_def
        rgb_throws_def)
  have all: "(\<forall>j. P j) \<longleftrightarrow> P XYZ \<and> P XYZRGB \<and> P XYZSIFT" for P
    by (metis kind.exhaust)
  have a: "files ?s1 \<noteq> []" "prop_auto_publish_cloud all_kinds \<or> publish_cloud_flag ?s1"
    "index ?s1 \<noteq> previous_index ?s1" "requested all_kinds XYZRGB"
    "loadPCDFile rgb_throws XYZRGB (files ?s1 ! nat (index ?s1)) = Throws"
    "\<forall>j. position j < position XYZRGB \<and> requested all_kinds j \<longrightarrow>
           loadPCDFile rgb_throws j (files ?s1 ! nat (index ?s1)) \<noteq> Throws"
    by (simp_all add: all demo_defs two_kinds_def all_kinds_def rgb_throws_def requested_def)
  have r: "requested all_kinds XYZ" "requested all_kinds XYZSIFT"
    "loadPCDFile rgb_throws XYZ ''f0'' = Loaded [(XYZ, ''f0'')]"
    by (simp_all add: requested_def all_kinds_def two_kinds_def xyz_props_def rgb_throws_def
        decoded_def)
  have f: "files ?s1 ! nat (index ?s1) = ''f0''"
    by (simp add: onInit_def)
  from exception_ends_loading [OF sel a, unfolded f]
  obtain e where e: "fst (onLoadCloud all_kinds rgb_throws (onInit constructed)) =
        [] @ e @ [Load XYZRGB ''f0'']"
    and later: "\<forall>j. position XYZRGB \<le> position j \<longrightarrow>
        get_cloud j (snd (onLoadCloud all_kinds rgb_throws (onInit constructed))) =
        get_cloud j (onInit constructed)"
    and earlier: "\<forall>j c. position j < position XYZRGB \<and> requested all_kinds j \<and>
        loadPCDFile rgb_throws j ''f0'' = Loaded c \<longrightarrow>
        get_cloud j (snd (onLoadCloud all_kinds rgb_throws (onInit constructed))) = c"
    by blast
  have "get_cloud XYZ (snd (onLoadCloud all_kinds rgb_throws (onInit constructed))) = [(XYZ, ''f0'')]"
    using earlier [rule_format, of XYZ "[(XYZ, ''f0'')]"] r by simp
  moreover have
    "get_cloud XYZRGB (snd (onLoadCloud all_kinds rgb_throws (onInit constructed))) = []"
    "get_cloud XYZSIFT (snd (onLoadCloud all_kinds rgb_throws (onInit constructed))) = []"
    using later [rule_format, of XYZRGB] later [rule_format, of XYZSIFT]
    by (simp_all add: get_cloud_def onInit_def)
  ultimately show ?thesis
    using a(4,5) r f by (simp add: rgb_throws_first_tick)
qed

text \<open>The claim of C1 as stated fails: with xyz and xyzrgb requested and the xyz loader
  throwing, the tick calls the xyz loader and nothing else; the xyzrgb cloud, which would
  decode, is neither loaded nor emitted.\<close>

theorem exception_counterexample:
  "requested two_kinds XYZ \<and> requested two_kinds XYZRGB \<and>
   loadPCDFile xyz_throws XYZ ''f0'' = Throws \<and>
   loadPCDFile xyz_throws XYZRGB ''f0'' = Loaded [(XYZRGB, ''f0'')] \<and>
   fst (onLoadCloud two_kinds xyz_throws (onInit constructed)) = [Load XYZ ''f0''] \<and>
   cloud_xyzrgb (snd (onLoadCloud two_kinds xyz_throws (onInit constructed))) = []"
  by (simp add: xyz_throws_first_tick)
     (simp add: demo_defs two_kinds_def xyz_throws_def requested_def)

subsection \<open>The publish gate\<close>






subsection \<open>A decoded cloud is stored\<close>








subsection \<open>Histories without reload\<close>





subsection \<open>The stored clouds between ticks\<close>









subsection \<open>Publication on request\<close>









end
